theory Spec2Isabelle
  imports Main
begin

section \<open>Values and Python primitives\<close>

text \<open>
  The bot is written in Python. A Python \<^verbatim>\<open>str\<close> is modelled as a \<^typ>\<open>string\<close>
  whose characters are read as code points below 256; an exception is a value of
  \<open>py_error\<close>. A criteria value (an entry of the \<^verbatim>\<open>filters\<close> dictionary) is an
  integer or a string.
\<close>

datatype py_error = KeyError | ValueError | IndexError | SendError

datatype fval = IntV int | StrV string

type_synonym filters = "string \<rightharpoonup> fval"

text \<open>
  \<^verbatim>\<open>s.split(sep, n)\<close>: at most \<open>n\<close> cuts, at the leftmost occurrences of the
  separator; the last part keeps every later separator.
\<close>

fun py_split :: "char \<Rightarrow> nat \<Rightarrow> string \<Rightarrow> string list" where
  "py_split sep 0 s = [s]"
| "py_split sep (Suc n) s =
     (if sep \<in> set s
      then takeWhile (\<lambda>c. c \<noteq> sep) s # py_split sep n (tl (dropWhile (\<lambda>c. c \<noteq> sep) s))
      else [s])"

text \<open>
  \<^verbatim>\<open>int(s)\<close> on a string, base ten: surrounding white space is dropped (tab, line
  feed, vertical tab, form feed, carriage return, space, and of the code points from 128
  to 255 the next-line and the no-break space), one sign is allowed, then decimal
  digits, where single underscores may stand between two digits. \<open>None\<close> is the
  \<^verbatim>\<open>ValueError\<close>. (CPython from 3.11 on also refuses more than 4300 digits by default;
  a callback payload is at most 64 bytes long, far below that.)
\<close>

definition int_space :: "char \<Rightarrow> bool" where
  "int_space c = ((of_char c :: nat) \<in> {9, 10, 11, 12, 13, 32, 133, 160})"

definition int_strip :: "string \<Rightarrow> string" where
  "int_strip s = rev (dropWhile int_space (rev (dropWhile int_space s)))"

definition is_digit :: "char \<Rightarrow> bool" where
  "is_digit c = (48 \<le> (of_char c :: nat) \<and> (of_char c :: nat) \<le> 57)"

definition digit_val :: "char \<Rightarrow> nat" where
  "digit_val c = of_char c - 48"

fun digits_val :: "string \<Rightarrow> nat \<Rightarrow> nat option" where
  "digits_val [] acc = None"
| "digits_val [c] acc = (if is_digit c then Some (10 * acc + digit_val c) else None)"
| "digits_val (c # d # ds) acc =
     (if is_digit c
      then (if d = CHR ''_'' then digits_val ds (10 * acc + digit_val c)
            else digits_val (d # ds) (10 * acc + digit_val c))
      else None)"

definition py_int :: "string \<Rightarrow> int option" where
  "py_int s =
     (case int_strip s of
        [] \<Rightarrow> None
      | c # cs \<Rightarrow>
          if c = CHR ''-'' then map_option (\<lambda>n. - int n) (digits_val cs 0)
          else if c = CHR ''+'' then map_option int (digits_val cs 0)
          else map_option int (digits_val (c # cs) 0))"

section \<open>The category catalogue\<close>

text \<open>
  \<^verbatim>\<open>CATEGORY_FLOWS\<close> of \<^verbatim>\<open>app.py\<close>. The display texts (titles, prompts and button
  labels) are Persian and carry emoji; they take no part in any decision, so a title is
  written by its English name, \<open>labels\<close> lists the steps that have a prompt, and a
  choice is kept by its encoded value alone.
\<close>

record step_opts =
  opt_type :: string
  choices :: "string list"

record category_flow =
  title :: string
  steps :: "string list"
  labels :: "string list"
  options :: "(string \<times> step_opts) list"
  map_keys :: "(string \<times> string \<times> string) list"

definition rng :: "string list \<Rightarrow> step_opts" where
  "rng cs = \<lparr>opt_type = ''range'', choices = cs\<rparr>"

definition enm :: "string list \<Rightarrow> step_opts" where
  "enm cs = \<lparr>opt_type = ''enum'', choices = cs\<rparr>"

definition condition_opts :: step_opts where
  "condition_opts = enm [''new'', ''like_new'', ''used'']"

definition CATEGORY_FLOWS :: "(string \<times> category_flow) list" where
  "CATEGORY_FLOWS =
    [(''car'',
      \<lparr>title = ''Car'',
       steps = [''mileage'', ''year'', ''price''],
       labels = [''mileage'', ''year'', ''price''],
       options =
         [(''mileage'', rng [''0-50000'', ''50000-100000'', ''100000-200000'',
                             ''200000-350000'', ''350000-500000'', ''500000-10000000'']),
          (''year'', rng [''2006-2011'', ''2011-2016'', ''2016-2021'', ''2021-2025'']),
          (''price'', rng [''0-300000000'', ''300000000-700000000'',
                           ''700000000-1500000000'', ''1500000000-100000000000''])],
       map_keys =
         [(''mileage'', ''mileage_min'', ''mileage_max''),
          (''year'', ''year_min'', ''year_max''),
          (''price'', ''price_min'', ''price_max'')]\<rparr>),
     (''real_estate'',
      \<lparr>title = ''Real estate'',
       steps = [''deal'', ''type'', ''meter'', ''rooms'', ''price''],
       labels = [''deal'', ''type'', ''meter'', ''rooms'', ''price''],
       options =
         [(''deal'', enm [''buy'', ''rent'']),
          (''type'', enm [''apartment'', ''house'', ''land'']),
          (''meter'', rng [''0-60'', ''60-90'', ''90-120'', ''120-200'', ''200-10000'']),
          (''rooms'', enm [''1'', ''2'', ''3'', ''4plus'']),
          (''price'', rng [''0-500000000'', ''500000000-2000000000'',
                           ''2000000000-5000000000'', ''5000000000-100000000000''])],
       map_keys =
         [(''meter'', ''meter_min'', ''meter_max''),
          (''price'', ''price_min'', ''price_max'')]\<rparr>),
     (''jobs'',
      \<lparr>title = ''Jobs'',
       steps = [''field'', ''seniority'', ''work_type'', ''salary''],
       labels = [''field'', ''seniority'', ''work_type'', ''salary''],
       options =
         [(''field'', enm [''dev'', ''design'', ''sales'', ''admin'']),
          (''seniority'', enm [''junior'', ''mid'', ''senior'']),
          (''work_type'', enm [''onsite'', ''remote'', ''hybrid'']),
          (''salary'', rng [''0-10000000'', ''10000000-20000000'',
                            ''20000000-40000000'', ''40000000-1000000000''])],
       map_keys = [(''salary'', ''price_min'', ''price_max'')]\<rparr>),
     (''mobile'',
      \<lparr>title = ''Mobile'',
       steps = [''brand'', ''storage'', ''condition'', ''price''],
       labels = [''brand'', ''storage'', ''condition'', ''price''],
       options =
         [(''brand'', enm [''apple'', ''samsung'', ''xiaomi'', ''huawei'', ''nokia'', ''other'']),
          (''storage'', enm [''32'', ''64'', ''128'', ''256plus'']),
          (''condition'', condition_opts),
          (''price'', rng [''0-5000000'', ''5000000-10000000'',
                           ''10000000-20000000'', ''20000000-1000000000''])],
       map_keys = [(''price'', ''price_min'', ''price_max'')]\<rparr>),
     (''electronics'',
      \<lparr>title = ''Electronics'',
       steps = [''sub'', ''condition'', ''price''],
       labels = [''sub'', ''condition'', ''price''],
       options =
         [(''sub'', enm [''laptop'', ''pc'', ''monitor'', ''console'']),
          (''condition'', condition_opts),
          (''price'', rng [''0-10000000'', ''10000000-30000000'',
                           ''30000000-60000000'', ''60000000-1000000000''])],
       map_keys = [(''price'', ''price_min'', ''price_max'')]\<rparr>),
     (''fashion'',
      \<lparr>title = ''Fashion'',
       steps = [''sub'', ''size'', ''condition'', ''price''],
       labels = [''sub'', ''size'', ''condition'', ''price''],
       options =
         [(''sub'', enm [''women'', ''men'', ''kids'', ''acc'']),
          (''size'', enm [''S'', ''M'', ''L'', ''XL'']),
          (''condition'', condition_opts),
          (''price'', rng [''0-500000'', ''500000-1500000'',
                           ''1500000-3000000'', ''3000000-100000000''])],
       map_keys = [(''price'', ''price_min'', ''price_max'')]\<rparr>),
     (''home'',
      \<lparr>title = ''Home and kitchen'',
       steps = [''sub'', ''condition'', ''price''],
       labels = [''sub'', ''condition'', ''price''],
       options =
         [(''sub'', enm [''furniture'', ''rug'', ''appliance'']),
          (''condition'', condition_opts),
          (''price'', rng [''0-3000000'', ''3000000-8000000'',
                           ''8000000-15000000'', ''15000000-1000000000''])],
       map_keys = [(''price'', ''price_min'', ''price_max'')]\<rparr>),
     (''entertainment'',
      \<lparr>title = ''Entertainment'',
       steps = [''sub'', ''price''],
       labels = [''sub'', ''price''],
       options =
         [(''sub'', enm [''videogame'', ''book'', ''music'']),
          (''price'', rng [''0-2000000'', ''2000000-5000000'',
                           ''5000000-15000000'', ''15000000-1000000000''])],
       map_keys = [(''price'', ''price_min'', ''price_max'')]\<rparr>),
     (''animals'',
      \<lparr>title = ''Animals'',
       steps = [''sub'', ''age'', ''price''],
       labels = [''sub'', ''age'', ''price''],
       options =
         [(''sub'', enm [''dog'', ''cat'', ''bird'', ''fish'']),
          (''age'', rng [''0-3'', ''3-12'', ''12-36'', ''36-240'']),
          (''price'', rng [''0-3000000'', ''3000000-10000000'',
                           ''10000000-30000000'', ''30000000-1000000000''])],
       map_keys =
         [(''age'', ''age_min'', ''age_max''),
          (''price'', ''price_min'', ''price_max'')]\<rparr>)]"

section \<open>Storing one answer\<close>

text \<open>
  \<^verbatim>\<open>store_filter_value(category, filters, step, value)\<close>. The dictionary is mutated in
  place, so the model returns the new dictionary; \<open>Inl KeyError\<close> is the failed lookup
  \<^verbatim>\<open>CATEGORY_FLOWS[category]\<close>. Inside the \<^verbatim>\<open>try\<close> the first assignment has already
  happened when the second conversion raises; the handler then overwrites both keys.
\<close>

definition store_range :: "filters \<Rightarrow> string \<Rightarrow> string \<Rightarrow> string \<Rightarrow> filters" where
  "store_range f kmin kmax v =
     (if CHR ''-'' \<in> set v
      then (case py_split (CHR ''-'') 1 v of
              [lo, hi] \<Rightarrow>
                (case py_int lo of
                   None \<Rightarrow> f(kmin \<mapsto> StrV lo, kmax \<mapsto> StrV hi)
                 | Some a \<Rightarrow>
                     (let f1 = f(kmin \<mapsto> IntV a)
                      in case py_int hi of
                           None \<Rightarrow> f1(kmin \<mapsto> StrV lo, kmax \<mapsto> StrV hi)
                         | Some b \<Rightarrow> f1(kmax \<mapsto> IntV b)))
            | _ \<Rightarrow> f)
      else f(kmin \<mapsto> StrV v, kmax \<mapsto> StrV v))"

definition store_filter_value ::
    "string \<Rightarrow> filters \<Rightarrow> string \<Rightarrow> string \<Rightarrow> py_error + filters" where
  "store_filter_value category f step v =
     (case map_of CATEGORY_FLOWS category of
        None \<Rightarrow> Inl KeyError
      | Some cfg \<Rightarrow>
          (case map_of (map_keys cfg) step of
             Some (kmin, kmax) \<Rightarrow> Inr (store_range f kmin kmax v)
           | None \<Rightarrow> Inr (f(step \<mapsto> StrV v))))"

section \<open>The filter flow\<close>

text \<open>
  \<^verbatim>\<open>builder_state\<close> maps a user identifier to a dictionary whose keys come and go:
  \<^verbatim>\<open>{"step": "category"}\<close> after the "new playlist" button, the five keys written by
  the \<^verbatim>\<open>cat:\<close> branch, then \<^verbatim>\<open>city\<close> and \<^verbatim>\<open>district\<close>. A key that is absent is
  \<open>None\<close>, and reading it with \<^verbatim>\<open>st[key]\<close> raises \<^verbatim>\<open>KeyError\<close>. (\<^verbatim>\<open>district\<close> is
  only ever read with \<^verbatim>\<open>st.get\<close>, so an absent key and a stored \<^verbatim>\<open>None\<close> coincide.)
\<close>

record bstate =
  st_step :: string
  st_category :: "string option"
  st_city :: "string option"
  st_district :: "string option"
  st_filters :: "filters option"
  st_flow :: "string list option"
  st_flow_idx :: "nat option"

type_synonym builder = "int \<rightharpoonup> bstate"

text \<open>The row of the \<^verbatim>\<open>playlists\<close> table (\<^verbatim>\<open>models.py\<close>), without its primary key.\<close>

record playlist =
  user_id :: int
  pl_title :: string
  pl_category :: string
  pl_city :: string
  pl_district :: "string option"
  pl_filters :: filters
  last_seen_ids :: "string list"

definition CATEGORY_TOKENS :: "(string \<times> string) list" where
  "CATEGORY_TOKENS =
    [(''car'', ''cars''),
     (''real_estate'', ''real-estate''),
     (''jobs'', ''jobs''),
     (''mobile'', ''mobile-phones''),
     (''electronics'', ''digital-devices''),
     (''fashion'', ''apparel''),
     (''home'', ''home-kitchen''),
     (''entertainment'', ''entertainment''),
     (''animals'', ''animals'')]"

text \<open>
  What a callback branch does besides changing \<^verbatim>\<open>builder_state\<close>: the message it shows,
  the playlist row it commits, or the exception that leaves the handler. \<open>Prompt\<close>
  carries the category, the step and the rows of callback payloads of the keyboard.
\<close>

datatype outcome =
    Ignored
  | Unsupported
  | AskCity
  | AskDistrict string
  | Prompt string string "string list list"
  | Finished playlist
  | Raised py_error

text \<open>\<^verbatim>\<open>build_grid_buttons\<close>: rows of three buttons, a shorter last row.\<close>

fun grid_loop :: "string list \<Rightarrow> string \<Rightarrow> string list list \<Rightarrow> string list \<Rightarrow> string list list" where
  "grid_loop [] prefix rows row = (if row \<noteq> [] then rows @ [row] else rows)"
| "grid_loop (v # vs) prefix rows row =
     (let row' = row @ [prefix @ '':'' @ v]
      in if length row' = 3 then grid_loop vs prefix (rows @ [row']) []
         else grid_loop vs prefix rows row')"

definition build_grid_buttons :: "string list \<Rightarrow> string \<Rightarrow> string list list" where
  "build_grid_buttons vs prefix = grid_loop vs prefix [] []"

text \<open>
  \<^verbatim>\<open>step_label(cat, step)\<close> followed by \<^verbatim>\<open>step_keyboard(cat, step)\<close>, as every
  caller runs them: each dictionary lookup may raise.
\<close>

definition show_step :: "string \<Rightarrow> string \<Rightarrow> outcome" where
  "show_step cat step =
     (case map_of CATEGORY_FLOWS cat of
        None \<Rightarrow> Raised KeyError
      | Some cfg \<Rightarrow>
          if step \<notin> set (labels cfg) then Raised KeyError
          else (case map_of (options cfg) step of
                  None \<Rightarrow> Raised KeyError
                | Some opts \<Rightarrow>
                    Prompt cat step (build_grid_buttons (choices opts) (''flt:'' @ step))))"

text \<open>The \<^verbatim>\<open>cat:\<close> branch of \<^verbatim>\<open>on_callback\<close>; \<open>slug\<close> is \<^verbatim>\<open>data.split(":")[1]\<close>.\<close>

definition on_cat :: "builder \<Rightarrow> int \<Rightarrow> string \<Rightarrow> builder \<times> outcome" where
  "on_cat bs uid slug =
     (if slug \<notin> fst ` set CATEGORY_TOKENS then (bs, Unsupported)
      else (case map_of CATEGORY_FLOWS slug of
              None \<Rightarrow> (bs, Raised KeyError)
            | Some cfg \<Rightarrow>
                (bs(uid \<mapsto>
                   \<lparr>st_step = ''city'', st_category = Some slug, st_city = None,
                    st_district = None, st_filters = Some Map.empty,
                    st_flow = Some (steps cfg), st_flow_idx = Some 0\<rparr>),
                 AskCity)))"

text \<open>The \<^verbatim>\<open>city:\<close> branch.\<close>

definition on_city :: "builder \<Rightarrow> int \<Rightarrow> string \<Rightarrow> builder \<times> outcome" where
  "on_city bs uid city_slug =
     (case bs uid of
        None \<Rightarrow> (bs, Ignored)
      | Some st \<Rightarrow>
          (bs(uid \<mapsto> st\<lparr>st_city := Some city_slug, st_step := ''district''\<rparr>),
           AskDistrict city_slug))"

text \<open>
  The \<^verbatim>\<open>dist:\<close> branch. The district and the step name are already written when a
  later lookup raises.
\<close>

definition on_dist :: "builder \<Rightarrow> int \<Rightarrow> string \<Rightarrow> builder \<times> outcome" where
  "on_dist bs uid dist =
     (case bs uid of
        None \<Rightarrow> (bs, Ignored)
      | Some st \<Rightarrow>
          (let st1 = st\<lparr>st_district := (if dist = ''__ALL__'' then None else Some dist),
                        st_step := ''filters''\<rparr>;
               bs1 = bs(uid \<mapsto> st1)
           in case st_category st1 of
                None \<Rightarrow> (bs1, Raised KeyError)
              | Some cat \<Rightarrow>
                  (case st_flow st1 of
                     None \<Rightarrow> (bs1, Raised KeyError)
                   | Some fl \<Rightarrow>
                       (case st_flow_idx st1 of
                          None \<Rightarrow> (bs1, Raised KeyError)
                        | Some i \<Rightarrow>
                            if i < length fl then (bs1, show_step cat (fl ! i))
                            else (bs1, Raised IndexError)))))"

text \<open>
  The \<^verbatim>\<open>flt:\<close> branch, on the whole callback payload \<^verbatim>\<open>flt:<step>:<value>\<close>. The
  step and the value are taken from the payload and handed to \<^verbatim>\<open>store_filter_value\<close>
  as they are; then the index moves on, and either the next step is shown or the
  playlist row is built and the session deleted. (The handler then commits the row and
  calls \<^verbatim>\<open>send_initial_results\<close>.)
\<close>

definition on_flt :: "builder \<Rightarrow> int \<Rightarrow> string \<Rightarrow> builder \<times> outcome" where
  "on_flt bs uid data =
     (case bs uid of
        None \<Rightarrow> (bs, Ignored)
      | Some st \<Rightarrow>
          (case py_split (CHR '':'') 2 data of
             [_, step, v] \<Rightarrow>
               (case st_category st of
                  None \<Rightarrow> (bs, Raised KeyError)
                | Some cat \<Rightarrow>
                    (case st_filters st of
                       None \<Rightarrow> (bs, Raised KeyError)
                     | Some f \<Rightarrow>
                         (case store_filter_value cat f step v of
                            Inl e \<Rightarrow> (bs, Raised e)
                          | Inr f' \<Rightarrow>
                              (let st1 = st\<lparr>st_filters := Some f'\<rparr>
                               in case st_flow_idx st1 of
                                    None \<Rightarrow> (bs(uid \<mapsto> st1), Raised KeyError)
                                  | Some i \<Rightarrow>
                                      (let st2 = st1\<lparr>st_flow_idx := Some (i + 1)\<rparr>;
                                           bs2 = bs(uid \<mapsto> st2)
                                       in case st_flow st2 of
                                            None \<Rightarrow> (bs2, Raised KeyError)
                                          | Some fl \<Rightarrow>
                                              if i + 1 < length fl
                                              then (bs2, show_step cat (fl ! (i + 1)))
                                              else (case map_of CATEGORY_FLOWS cat of
                                                      None \<Rightarrow> (bs2, Raised KeyError)
                                                    | Some cfg \<Rightarrow>
                                                        (case st_city st2 of
                                                           None \<Rightarrow> (bs2, Raised KeyError)
                                                         | Some city \<Rightarrow>
                                                             (bs(uid := None),
                                                              Finished
                                                                \<lparr>user_id = uid,
                                                                 pl_title = title cfg @ '' | '' @ city,
                                                                 pl_category = cat,
                                                                 pl_city = city,
                                                                 pl_district = st_district st2,
                                                                 pl_filters = f',
                                                                 last_seen_ids = []\<rparr>))))))))
           | _ \<Rightarrow> (bs, Raised ValueError)))"

text \<open>The payload of the button of step \<open>step\<close> with encoded value \<open>v\<close>.\<close>

definition flt_data :: "string \<Rightarrow> string \<Rightarrow> string" where
  "flt_data step v = ''flt:'' @ step @ '':'' @ v"

text \<open>Pressing one button after the other; the outcomes are collected in order.\<close>

fun answer_all :: "builder \<Rightarrow> int \<Rightarrow> string list \<Rightarrow> builder \<times> outcome list" where
  "answer_all bs uid [] = (bs, [])"
| "answer_all bs uid (d # ds) =
     (case on_flt bs uid d of
        (bs1, out) \<Rightarrow> (case answer_all bs1 uid ds of (bs2, outs) \<Rightarrow> (bs2, out # outs)))"

section \<open>The provider query\<close>

text \<open>
  The first half of \<^verbatim>\<open>search\<close> in \<^verbatim>\<open>divar_client.py\<close> builds the request body.
  \<^verbatim>\<open>filters.get(k)\<close> is the stored value or \<^verbatim>\<open>None\<close>.
\<close>

record clause =
  cl_value :: string
  cl_min :: "fval option"
  cl_max :: "fval option"

record payload =
  q_category :: string
  q_search :: "clause list"
  q_cities :: "string list"
  q_page :: nat

definition range_clause :: "string \<Rightarrow> string \<Rightarrow> string \<Rightarrow> filters \<Rightarrow> clause list" where
  "range_clause name kmin kmax f =
     (if f kmin \<noteq> None \<or> f kmax \<noteq> None
      then [\<lparr>cl_value = name, cl_min = f kmin, cl_max = f kmax\<rparr>]
      else [])"

definition build_payload :: "string \<Rightarrow> string \<Rightarrow> filters \<Rightarrow> payload" where
  "build_payload city_slug category_token f =
     \<lparr>q_category = category_token,
      q_search =
        range_clause ''price'' ''price_min'' ''price_max'' f @
        (if category_token = ''cars''
         then range_clause ''mileage'' ''mileage_min'' ''mileage_max'' f @
              range_clause ''production-year'' ''year_min'' ''year_max'' f
         else []),
      q_cities = [city_slug],
      q_page = 1\<rparr>"

section \<open>Posts, the provider and the messenger\<close>

text \<open>
  A post is the dictionary that \<^verbatim>\<open>search\<close> builds for one item of the answer. Every
  field may be \<^verbatim>\<open>None\<close>; \<open>truthy\<close> is Python's test \<^verbatim>\<open>if x\<close> on such a field.
\<close>

record post =
  p_id :: "string option"
  p_title :: "string option"
  p_desc :: "string option"
  p_price :: "string option"
  p_city :: "string option"
  p_district :: "string option"
  p_images :: "string list"
  p_url :: "string option"
  p_phone :: "string option"
  p_created_at :: "string option"

definition truthy :: "string option \<Rightarrow> bool" where
  "truthy x = (case x of None \<Rightarrow> False | Some s \<Rightarrow> s \<noteq> [])"

text \<open>
  One call of the Telegram client: a media group (each photo with its optional caption)
  or a text message with its optional link button.
\<close>

datatype bot_call =
    SendMediaGroup int "(string \<times> string option) list"
  | SendMessage int string "string option"

text \<open>
  The world outside the process, for the length of one sweep: what the provider answers
  to a request body (the posts of the answer in its order, or \<open>None\<close> when the HTTP
  call or the decoding raises), what \<^verbatim>\<open>fetch_details\<close> gives for a token (\<open>None\<close> when
  it raises), which Telegram calls go through, and the caption text rendered for a post
  (\<^verbatim>\<open>send_post\<close> assembles it from the post's fields and the clock).
\<close>

record env =
  provider :: "payload \<Rightarrow> post list option"
  fetch_details :: "string \<Rightarrow> string list option"
  delivers :: "bot_call \<Rightarrow> bool"
  caption_of :: "post \<Rightarrow> string"

text \<open>
  The second half of \<^verbatim>\<open>search\<close>: the posts are appended one by one and the loop
  breaks once \<open>limit\<close> of them are collected.
\<close>

fun collect_posts :: "nat \<Rightarrow> post list \<Rightarrow> post list \<Rightarrow> post list" where
  "collect_posts limit [] posts = posts"
| "collect_posts limit (it # items) posts =
     (let posts' = posts @ [it]
      in if length posts' \<ge> limit then posts' else collect_posts limit items posts')"

definition divar_search :: "env \<Rightarrow> string \<Rightarrow> string \<Rightarrow> filters \<Rightarrow> nat \<Rightarrow> post list option" where
  "divar_search E city_slug category_token f limit =
     (case provider E (build_payload city_slug category_token f) of
        None \<Rightarrow> None
      | Some items \<Rightarrow> Some (collect_posts limit items []))"

text \<open>
  A Telegram call either goes through and is appended to the record of what was sent,
  or raises. The result of a piece of code is \<open>None\<close> when it returns and \<open>Some e\<close>
  when the exception \<open>e\<close> leaves it.
\<close>

definition bot_do :: "env \<Rightarrow> bot_call \<Rightarrow> bot_call list \<Rightarrow> bot_call list \<times> py_error option" where
  "bot_do E c sent = (if delivers E c then (sent @ [c], None) else (sent, Some SendError))"

text \<open>
  \<^verbatim>\<open>send_post\<close>, in its three parts: the choice of the images (\<open>pick_images\<close>, with
  the detail fetch whose exception is swallowed), the Telegram calls (\<open>deliver\<close>) and
  the function itself. A failure of the media group, or of the button message after it,
  is caught and answered by the plain text message; that last call, like the only call
  of the branch without images, is outside every \<^verbatim>\<open>try\<close>.
\<close>

definition pick_images :: "env \<Rightarrow> post \<Rightarrow> string list" where
  "pick_images E p =
     (let images0 = filter (\<lambda>u. u \<noteq> []) (p_images p)
      in if truthy (p_url p) \<and> length images0 < 2 \<and> truthy (p_id p)
         then (case p_id p of
                 None \<Rightarrow> images0
               | Some tok \<Rightarrow>
                   (case fetch_details E tok of
                      None \<Rightarrow> images0
                    | Some gal \<Rightarrow> if gal \<noteq> [] then gal else images0))
         else images0)"

definition deliver ::
    "env \<Rightarrow> int \<Rightarrow> string \<Rightarrow> string option \<Rightarrow> string list \<Rightarrow> bot_call list
      \<Rightarrow> bot_call list \<times> py_error option" where
  "deliver E chat_id caption reply_markup images sent =
     (case images of
        [] \<Rightarrow> bot_do E (SendMessage chat_id caption reply_markup) sent
      | u0 # us \<Rightarrow>
          (let media = (u0, Some caption) # map (\<lambda>u. (u, None)) (take 8 us)
           in case bot_do E (SendMediaGroup chat_id media) sent of
                (sent1, Some _) \<Rightarrow> bot_do E (SendMessage chat_id caption reply_markup) sent1
              | (sent1, None) \<Rightarrow>
                  (if reply_markup \<noteq> None
                   then (case bot_do E (SendMessage chat_id ''...'' reply_markup) sent1 of
                           (sent2, Some _) \<Rightarrow>
                             bot_do E (SendMessage chat_id caption reply_markup) sent2
                         | (sent2, None) \<Rightarrow> (sent2, None))
                   else (sent1, None))))"

definition send_post :: "env \<Rightarrow> int \<Rightarrow> post \<Rightarrow> bot_call list \<Rightarrow> bot_call list \<times> py_error option" where
  "send_post E chat_id p sent =
     deliver E chat_id (caption_of E p) (if truthy (p_url p) then p_url p else None)
       (pick_images E p) sent"

text \<open>The loop \<^verbatim>\<open>for post in new_posts: await send_post(...)\<close>: nothing catches.\<close>

fun send_posts :: "env \<Rightarrow> int \<Rightarrow> post list \<Rightarrow> bot_call list \<Rightarrow> bot_call list \<times> py_error option" where
  "send_posts E chat_id [] sent = (sent, None)"
| "send_posts E chat_id (p # ps) sent =
     (case send_post E chat_id p sent of
        (sent1, Some e) \<Rightarrow> (sent1, Some e)
      | (sent1, None) \<Rightarrow> send_posts E chat_id ps sent1)"

section \<open>The sweep\<close>

text \<open>
  \<^verbatim>\<open>list(dict.fromkeys(xs))\<close>: the keys of a dictionary come out in the order of their
  first insertion, and inserting a key a second time does not move it.
\<close>

definition dict_fromkeys :: "'a list \<Rightarrow> 'a list" where
  "dict_fromkeys xs = fold (\<lambda>x keys. if x \<in> set keys then keys else keys @ [x]) xs []"

text \<open>
  The table of playlists is a list of rows under their primary keys;
  \<^verbatim>\<open>db.get(Playlist, id)\<close> is \<open>map_of\<close>, and the committed assignment to
  \<^verbatim>\<open>obj.last_seen_ids\<close> rewrites the row of that key.
\<close>

type_synonym table = "(nat \<times> playlist) list"

definition set_seen :: "nat \<Rightarrow> string list \<Rightarrow> table \<Rightarrow> table" where
  "set_seen pid mru db =
     map (\<lambda>(k, r). if k = pid then (k, r\<lparr>last_seen_ids := mru\<rparr>) else (k, r)) db"

record world =
  db :: table
  sent :: "bot_call list"

definition category_token :: "string \<Rightarrow> string" where
  "category_token c = (case map_of CATEGORY_TOKENS c of Some t \<Rightarrow> t | None \<Rightarrow> c)"

text \<open>The posts of an answer that \<^verbatim>\<open>check_once\<close> takes for new.\<close>

definition new_posts :: "string list \<Rightarrow> post list \<Rightarrow> post list" where
  "new_posts seen posts =
     filter (\<lambda>x. truthy (p_id x) \<and> (case p_id x of None \<Rightarrow> False | Some i \<Rightarrow> i \<notin> set seen)) posts"

definition post_ids :: "post list \<Rightarrow> string list" where
  "post_ids ps = concat (map (\<lambda>x. case p_id x of None \<Rightarrow> [] | Some i \<Rightarrow> [i]) (filter (\<lambda>x. truthy (p_id x)) ps))"

text \<open>
  The body of the loop of \<^verbatim>\<open>check_once\<close> for the snapshot row \<open>p\<close> with key \<open>pid\<close>.
  \<open>None\<close> is reaching the end of the body (or \<^verbatim>\<open>continue\<close>); \<open>Some e\<close> is the
  exception leaving \<^verbatim>\<open>check_once\<close>.
\<close>

definition check_one :: "env \<Rightarrow> nat \<times> playlist \<Rightarrow> world \<Rightarrow> world \<times> py_error option" where
  "check_one E row w =
     (case row of (pid, p) \<Rightarrow>
        (case divar_search E (pl_city p) (category_token (pl_category p)) (pl_filters p) 8 of
           None \<Rightarrow> (w, None)
         | Some posts \<Rightarrow>
             (let new = new_posts (last_seen_ids p) posts
              in if new = [] then (w, None)
                 else (case send_posts E (user_id p) new (sent w) of
                         (sent1, Some e) \<Rightarrow> (w\<lparr>sent := sent1\<rparr>, Some e)
                       | (sent1, None) \<Rightarrow>
                           (let w1 = w\<lparr>sent := sent1\<rparr>;
                                ids = post_ids new
                            in case map_of (db w1) pid of
                                 None \<Rightarrow> (w1, None)
                               | Some obj \<Rightarrow>
                                   (w1\<lparr>db := set_seen pid
                                             (take 40 (dict_fromkeys (ids @ last_seen_ids obj)))
                                             (db w1)\<rparr>,
                                    None))))))"

fun sweep :: "env \<Rightarrow> table \<Rightarrow> world \<Rightarrow> world \<times> py_error option" where
  "sweep E [] w = (w, None)"
| "sweep E (row # rows) w =
     (case check_one E row w of
        (w1, Some e) \<Rightarrow> (w1, Some e)
      | (w1, None) \<Rightarrow> sweep E rows w1)"

text \<open>\<^verbatim>\<open>check_once\<close>: the snapshot is the table as it is when the sweep starts.\<close>

definition check_once :: "env \<Rightarrow> world \<Rightarrow> world \<times> py_error option" where
  "check_once E w = sweep E (db w) w"

section \<open>The words of the specification\<close>

text \<open>
  The specification's \<open>dedupe\<close>: every identifier stays at its first occurrence and the
  later ones are removed.
\<close>

fun dedupe :: "'a list \<Rightarrow> 'a list" where
  "dedupe [] = []"
| "dedupe (x # xs) = x # dedupe (filter (\<lambda>y. y \<noteq> x) xs)"

text \<open>
  The specification's fields of a step: the two mapped names of a \<open>range\<close> step, the
  step's own name for an \<open>enum\<close> step.
\<close>

definition step_fields :: "category_flow \<Rightarrow> string \<Rightarrow> string set" where
  "step_fields cfg step =
     (case map_of (options cfg) step of
        None \<Rightarrow> {}
      | Some opts \<Rightarrow>
          if opt_type opts = ''range''
          then (case map_of (map_keys cfg) step of
                  None \<Rightarrow> {}
                | Some (kmin, kmax) \<Rightarrow> {kmin, kmax})
          else {step})"

text \<open>The keys that \<^verbatim>\<open>store_filter_value\<close> writes for a step.\<close>

definition mapped_fields :: "category_flow \<Rightarrow> string \<Rightarrow> string set" where
  "mapped_fields cfg step =
     (case map_of (map_keys cfg) step of
        Some (kmin, kmax) \<Rightarrow> {kmin, kmax}
      | None \<Rightarrow> {step})"

text \<open>
  The session that the \<^verbatim>\<open>cat:\<close>, \<^verbatim>\<open>city:\<close> and \<^verbatim>\<open>dist:\<close> branches leave behind, and
  the playlist row that the last answer builds from it.
\<close>

definition started :: "category_flow \<Rightarrow> string \<Rightarrow> string \<Rightarrow> string \<Rightarrow> bstate" where
  "started cfg cat city dist =
     \<lparr>st_step = ''filters'', st_category = Some cat, st_city = Some city,
      st_district = (if dist = ''__ALL__'' then None else Some dist),
      st_filters = Some Map.empty, st_flow = Some (steps cfg), st_flow_idx = Some 0\<rparr>"

definition finished_row ::
    "int \<Rightarrow> category_flow \<Rightarrow> string \<Rightarrow> string \<Rightarrow> string option \<Rightarrow> filters \<Rightarrow> playlist" where
  "finished_row uid cfg cat city district f =
     \<lparr>user_id = uid, pl_title = title cfg @ '' | '' @ city, pl_category = cat, pl_city = city,
      pl_district = district, pl_filters = f, last_seen_ids = []\<rparr>"

text \<open>
  The calls that go through while one post is sent, and the plain text message that
  \<^verbatim>\<open>send_post\<close> falls back on (its only call when the post has no image).
\<close>

definition delivered_for :: "env \<Rightarrow> int \<Rightarrow> post \<Rightarrow> bot_call list" where
  "delivered_for E chat_id p = fst (send_post E chat_id p [])"

definition caption_message :: "env \<Rightarrow> int \<Rightarrow> post \<Rightarrow> bot_call" where
  "caption_message E chat_id p =
     SendMessage chat_id (caption_of E p) (if truthy (p_url p) then p_url p else None)"

section \<open>Sample inputs\<close>

text \<open>
  A post as \<^verbatim>\<open>search\<close> builds it from an item that has only a token (or not even
  that), a world whose detail fetch finds no image and whose caption is the token, and
  a playlist of user 7.
\<close>

definition sample_post :: "string option \<Rightarrow> post" where
  "sample_post tok =
     \<lparr>p_id = tok, p_title = None, p_desc = None, p_price = None, p_city = None,
      p_district = None, p_images = [],
      p_url = Some (''https://divar.ir/v/'' @ (case tok of None \<Rightarrow> ''None'' | Some t \<Rightarrow> t)),
      p_phone = None, p_created_at = None\<rparr>"

definition sample_env :: "(bot_call \<Rightarrow> bool) \<Rightarrow> (payload \<Rightarrow> post list option) \<Rightarrow> env" where
  "sample_env ok answer =
     \<lparr>provider = answer, fetch_details = (\<lambda>_. Some []), delivers = ok,
      caption_of = (\<lambda>x. case p_id x of None \<Rightarrow> ''untitled'' | Some t \<Rightarrow> t)\<rparr>"

definition sample_playlist :: "string list \<Rightarrow> playlist" where
  "sample_playlist seen =
     \<lparr>user_id = 7, pl_title = ''Car | tehran'', pl_category = ''car'', pl_city = ''tehran'',
      pl_district = None, pl_filters = Map.empty, last_seen_ids = seen\<rparr>"

text \<open>The session of user 7 after choosing the car category, a city and the whole city.\<close>

definition sample_session :: bstate where
  "sample_session =
     \<lparr>st_step = ''filters'', st_category = Some ''car'', st_city = Some ''tehran'',
      st_district = None, st_filters = Some Map.empty,
      st_flow = Some [''mileage'', ''year'', ''price''], st_flow_idx = Some 0\<rparr>"

section \<open>Storing a range answer\<close>

lemmas py_int_eval = py_int_def int_strip_def int_space_def is_digit_def digit_val_def

lemma py_split_dash:
  "CHR ''-'' \<notin> set lo \<Longrightarrow> py_split (CHR ''-'') 1 (lo @ CHR ''-'' # hi) = [lo, hi]"
proof -
  assume lo: "CHR ''-'' \<notin> set lo"
  then have all: "\<forall>c\<in>set lo. c \<noteq> CHR ''-''" by blast
  have t: "takeWhile (\<lambda>c. c \<noteq> CHR ''-'') (lo @ CHR ''-'' # hi) = lo"
    using all by (simp add: takeWhile_tail)
  have d: "dropWhile (\<lambda>c. c \<noteq> CHR ''-'') (lo @ CHR ''-'' # hi) = CHR ''-'' # hi"
    using all by simp
  show ?thesis by (simp add: t d)
qed

lemma dash_decomp:
  "CHR ''-'' \<in> set v \<Longrightarrow> \<exists>lo hi. v = lo @ CHR ''-'' # hi \<and> CHR ''-'' \<notin> set lo"
  by (rule split_list_first)

lemma store_range_dash:
  assumes "CHR ''-'' \<notin> set lo"
  shows "store_range f kmin kmax (lo @ CHR ''-'' # hi) =
     (case (py_int lo, py_int hi) of
        (Some a, Some b) \<Rightarrow> f(kmin \<mapsto> IntV a, kmax \<mapsto> IntV b)
      | _ \<Rightarrow> f(kmin \<mapsto> StrV lo, kmax \<mapsto> StrV hi))"
proof -
  have "py_split (CHR ''-'') 1 (lo @ CHR ''-'' # hi) = [lo, hi]"
    using assms by (rule py_split_dash)
  then show ?thesis
    by (simp add: store_range_def split: option.split)
qed

lemma map_keys_distinct:
  "map_of CATEGORY_FLOWS cat = Some cfg \<Longrightarrow> map_of (map_keys cfg) step = Some (kmin, kmax) \<Longrightarrow> kmin \<noteq> kmax"
  by (auto simp: CATEGORY_FLOWS_def split: if_splits)

text \<open>
  Claim C7. For a step with a range mapping in the catalogue, storing an encoded value
  that has the delimiter cuts it at the first delimiter into \<open>lo\<close> and \<open>hi\<close>; when both
  halves convert with \<^verbatim>\<open>int\<close>, the two mapped fields receive the integers, otherwise
  they receive the two raw strings. In particular \<^verbatim>\<open>50000-100000\<close> under the mileage
  step gives the integers 50000 and 100000, and \<^verbatim>\<open>0-3\<close> under the age step gives the
  integers 0 and 3.
\<close>

theorem store_filter_value_range:
  assumes "map_of CATEGORY_FLOWS cat = Some cfg"
    and "map_of (map_keys cfg) step = Some (kmin, kmax)"
    and "CHR ''-'' \<notin> set lo"
  shows "store_filter_value cat f step (lo @ ''-'' @ hi) =
           Inr (case (py_int lo, py_int hi) of
                  (Some a, Some b) \<Rightarrow> f(kmin \<mapsto> IntV a, kmax \<mapsto> IntV b)
                | _ \<Rightarrow> f(kmin \<mapsto> StrV lo, kmax \<mapsto> StrV hi))
       \<and> store_filter_value ''car'' f ''mileage'' ''50000-100000'' =
           Inr (f(''mileage_min'' \<mapsto> IntV 50000, ''mileage_max'' \<mapsto> IntV 100000))
       \<and> store_filter_value ''animals'' f ''age'' ''0-3'' =
           Inr (f(''age_min'' \<mapsto> IntV 0, ''age_max'' \<mapsto> IntV 3))"
proof (intro conjI)
  show "store_filter_value cat f step (lo @ ''-'' @ hi) =
           Inr (case (py_int lo, py_int hi) of
                  (Some a, Some b) \<Rightarrow> f(kmin \<mapsto> IntV a, kmax \<mapsto> IntV b)
                | _ \<Rightarrow> f(kmin \<mapsto> StrV lo, kmax \<mapsto> StrV hi))"
    using assms by (simp add: store_filter_value_def store_range_dash)
  show "store_filter_value ''car'' f ''mileage'' ''50000-100000'' =
           Inr (f(''mileage_min'' \<mapsto> IntV 50000, ''mileage_max'' \<mapsto> IntV 100000))"
    by (simp add: store_filter_value_def CATEGORY_FLOWS_def store_range_def py_int_eval)
  show "store_filter_value ''animals'' f ''age'' ''0-3'' =
           Inr (f(''age_min'' \<mapsto> IntV 0, ''age_max'' \<mapsto> IntV 3))"
    by (simp add: store_filter_value_def CATEGORY_FLOWS_def store_range_def py_int_eval)
qed

theorem store_filter_value_range_witness:
  "store_filter_value ''real_estate'' Map.empty ''meter'' ''60-90'' =
     Inr [''meter_min'' \<mapsto> IntV 60, ''meter_max'' \<mapsto> IntV 90]
   \<and> store_filter_value ''real_estate'' Map.empty ''meter'' ''60-9x'' =
     Inr [''meter_min'' \<mapsto> StrV ''60'', ''meter_max'' \<mapsto> StrV ''9x'']"
proof -
  have c: "map_of CATEGORY_FLOWS ''real_estate'' \<noteq> None"
    by (simp add: CATEGORY_FLOWS_def)
  then obtain cfg where cfg: "map_of CATEGORY_FLOWS ''real_estate'' = Some cfg" by blast
  then have mk: "map_of (map_keys cfg) ''meter'' = Some (''meter_min'', ''meter_max'')"
    by (auto simp: CATEGORY_FLOWS_def)
  have d: "CHR ''-'' \<notin> set ''60''" by simp
  have i1: "py_int ''60'' = Some 60" and i2: "py_int ''90'' = Some 90" and i3: "py_int ''9x'' = None"
    by (simp_all add: py_int_eval)
  show ?thesis
    using store_filter_value_range [OF cfg mk d, of Map.empty "''90''"]
      store_filter_value_range [OF cfg mk d, of Map.empty "''9x''"]
    by (simp add: i1 i2 i3)
qed

text \<open>
  Claim C10. For a step with a range mapping in the catalogue and an encoded value that
  has the delimiter, the two stored bounds have the same type: both are integers, or
  both are the substrings before and after the first delimiter. When only the second
  half fails to convert, as in \<^verbatim>\<open>50000-abc\<close>, both fields hold the raw strings.
\<close>

theorem store_filter_value_same_type:
  assumes "map_of CATEGORY_FLOWS cat = Some cfg"
    and "map_of (map_keys cfg) step = Some (kmin, kmax)"
    and "CHR ''-'' \<in> set v"
  shows "(\<exists>r lo hi. store_filter_value cat f step v = Inr r \<and> v = lo @ ''-'' @ hi \<and>
            ((\<exists>a b. r kmin = Some (IntV a) \<and> r kmax = Some (IntV b)) \<or>
             (r kmin = Some (StrV lo) \<and> r kmax = Some (StrV hi))))
       \<and> store_filter_value ''car'' f ''mileage'' ''50000-abc'' =
           Inr (f(''mileage_min'' \<mapsto> StrV ''50000'', ''mileage_max'' \<mapsto> StrV ''abc''))"
proof (intro conjI)
  from assms(3) obtain lo hi where v: "v = lo @ CHR ''-'' # hi" and lo: "CHR ''-'' \<notin> set lo"
    using dash_decomp by blast
  have ne: "kmin \<noteq> kmax" using assms(1,2) by (rule map_keys_distinct)
  let ?r = "case (py_int lo, py_int hi) of
              (Some a, Some b) \<Rightarrow> f(kmin \<mapsto> IntV a, kmax \<mapsto> IntV b)
            | _ \<Rightarrow> f(kmin \<mapsto> StrV lo, kmax \<mapsto> StrV hi)"
  have st: "store_filter_value cat f step v = Inr ?r"
    using assms(1,2) lo by (simp add: store_filter_value_def v store_range_dash)
  have "(\<exists>a b. ?r kmin = Some (IntV a) \<and> ?r kmax = Some (IntV b)) \<or>
        (?r kmin = Some (StrV lo) \<and> ?r kmax = Some (StrV hi))"
    using ne by (cases "py_int lo"; cases "py_int hi") auto
  then have "store_filter_value cat f step v = Inr ?r \<and> v = lo @ ''-'' @ hi \<and>
            ((\<exists>a b. ?r kmin = Some (IntV a) \<and> ?r kmax = Some (IntV b)) \<or>
             (?r kmin = Some (StrV lo) \<and> ?r kmax = Some (StrV hi)))"
    using st v by simp
  then show "\<exists>r lo hi. store_filter_value cat f step v = Inr r \<and> v = lo @ ''-'' @ hi \<and>
            ((\<exists>a b. r kmin = Some (IntV a) \<and> r kmax = Some (IntV b)) \<or>
             (r kmin = Some (StrV lo) \<and> r kmax = Some (StrV hi)))"
    by (intro exI)
  show "store_filter_value ''car'' f ''mileage'' ''50000-abc'' =
           Inr (f(''mileage_min'' \<mapsto> StrV ''50000'', ''mileage_max'' \<mapsto> StrV ''abc''))"
    by (simp add: store_filter_value_def CATEGORY_FLOWS_def store_range_def py_int_eval)
qed

theorem store_filter_value_same_type_witness:
  "\<exists>r lo hi. store_filter_value ''animals'' Map.empty ''age'' ''3-1x'' = Inr r \<and>
      ''3-1x'' = lo @ ''-'' @ hi \<and>
      ((\<exists>a b. r ''age_min'' = Some (IntV a) \<and> r ''age_max'' = Some (IntV b)) \<or>
       (r ''age_min'' = Some (StrV lo) \<and> r ''age_max'' = Some (StrV hi)))"
proof -
  have "map_of CATEGORY_FLOWS ''animals'' \<noteq> None"
    by (simp add: CATEGORY_FLOWS_def)
  then obtain cfg where cfg: "map_of CATEGORY_FLOWS ''animals'' = Some cfg" by blast
  then have mk: "map_of (map_keys cfg) ''age'' = Some (''age_min'', ''age_max'')"
    by (auto simp: CATEGORY_FLOWS_def)
  have d: "CHR ''-'' \<in> set ''3-1x''" by simp
  show ?thesis
    using store_filter_value_same_type [OF cfg mk d, of Map.empty] by blast
qed

section \<open>The clauses of the request body\<close>

lemma range_clause_value:
  "(\<exists>c\<in>set (range_clause name kmin kmax f). cl_value c = n) \<longleftrightarrow>
     (n = name \<and> (kmin \<in> dom f \<or> kmax \<in> dom f))"
  by (auto simp: range_clause_def)

lemma q_search_value:
  "(\<exists>c\<in>set (q_search (build_payload city tok f)). cl_value c = n) \<longleftrightarrow>
     (n = ''price'' \<and> (''price_min'' \<in> dom f \<or> ''price_max'' \<in> dom f)) \<or>
     (tok = ''cars'' \<and>
       ((n = ''mileage'' \<and> (''mileage_min'' \<in> dom f \<or> ''mileage_max'' \<in> dom f)) \<or>
        (n = ''production-year'' \<and> (''year_min'' \<in> dom f \<or> ''year_max'' \<in> dom f))))"
proof (cases "tok = ''cars''")
  case True
  have "set (q_search (build_payload city tok f)) =
          set (range_clause ''price'' ''price_min'' ''price_max'' f) \<union>
          (set (range_clause ''mileage'' ''mileage_min'' ''mileage_max'' f) \<union>
           set (range_clause ''production-year'' ''year_min'' ''year_max'' f))"
    using True by (simp add: build_payload_def)
  then show ?thesis
    using True by (simp only: bex_Un range_clause_value) blast
next
  case False
  have "set (q_search (build_payload city tok f)) =
          set (range_clause ''price'' ''price_min'' ''price_max'' f)"
    using False by (simp add: build_payload_def)
  then show ?thesis
    using False by (simp only: range_clause_value) blast
qed

text \<open>
  Claim C9. The request body built for a subscription has a price clause exactly when
  \<open>price_min\<close> or \<open>price_max\<close> is a key of the criteria; it has a mileage clause, and a
  production-year clause, exactly when the category token is \<open>cars\<close> and one of the two
  corresponding bounds is a key of the criteria; it has no other clause, and two criteria
  that agree on these six keys give the same request body.
\<close>

theorem build_payload_clauses:
  "((\<exists>c\<in>set (q_search (build_payload city tok f)). cl_value c = ''price'') \<longleftrightarrow>
      (''price_min'' \<in> dom f \<or> ''price_max'' \<in> dom f))
   \<and> ((\<exists>c\<in>set (q_search (build_payload city tok f)). cl_value c = ''mileage'') \<longleftrightarrow>
      (tok = ''cars'' \<and> (''mileage_min'' \<in> dom f \<or> ''mileage_max'' \<in> dom f)))
   \<and> ((\<exists>c\<in>set (q_search (build_payload city tok f)). cl_value c = ''production-year'') \<longleftrightarrow>
      (tok = ''cars'' \<and> (''year_min'' \<in> dom f \<or> ''year_max'' \<in> dom f)))
   \<and> (\<forall>c\<in>set (q_search (build_payload city tok f)).
        cl_value c \<in> {''price'', ''mileage'', ''production-year''})
   \<and> ((\<forall>k\<in>{''price_min'', ''price_max'', ''mileage_min'', ''mileage_max'',
               ''year_min'', ''year_max''}. f k = g k) \<longrightarrow>
        build_payload city tok f = build_payload city tok g)"
proof (intro conjI)
  show "(\<exists>c\<in>set (q_search (build_payload city tok f)). cl_value c = ''price'') \<longleftrightarrow>
      (''price_min'' \<in> dom f \<or> ''price_max'' \<in> dom f)"
    by (simp add: q_search_value)
  show "(\<exists>c\<in>set (q_search (build_payload city tok f)). cl_value c = ''mileage'') \<longleftrightarrow>
      (tok = ''cars'' \<and> (''mileage_min'' \<in> dom f \<or> ''mileage_max'' \<in> dom f))"
    by (simp add: q_search_value)
  show "(\<exists>c\<in>set (q_search (build_payload city tok f)). cl_value c = ''production-year'') \<longleftrightarrow>
      (tok = ''cars'' \<and> (''year_min'' \<in> dom f \<or> ''year_max'' \<in> dom f))"
    by (simp add: q_search_value)
  show "\<forall>c\<in>set (q_search (build_payload city tok f)).
        cl_value c \<in> {''price'', ''mileage'', ''production-year''}"
    by (auto simp: build_payload_def range_clause_def split: if_splits)
  show "(\<forall>k\<in>{''price_min'', ''price_max'', ''mileage_min'', ''mileage_max'',
               ''year_min'', ''year_max''}. f k = g k) \<longrightarrow>
        build_payload city tok f = build_payload city tok g"
    by (simp add: build_payload_def range_clause_def)
qed

theorem build_payload_clauses_witness:
  "q_search (build_payload ''tehran'' ''cars''
      [''price_min'' \<mapsto> IntV 0, ''year_max'' \<mapsto> IntV 2016, ''rooms'' \<mapsto> StrV ''2'']) =
     [\<lparr>cl_value = ''price'', cl_min = Some (IntV 0), cl_max = None\<rparr>,
      \<lparr>cl_value = ''production-year'', cl_min = None, cl_max = Some (IntV 2016)\<rparr>]
   \<and> build_payload ''tehran'' ''cars''
        [''price_min'' \<mapsto> IntV 0, ''year_max'' \<mapsto> IntV 2016, ''rooms'' \<mapsto> StrV ''2''] =
      build_payload ''tehran'' ''cars'' [''price_min'' \<mapsto> IntV 0, ''year_max'' \<mapsto> IntV 2016]
   \<and> \<not> (\<exists>c\<in>set (q_search (build_payload ''tehran'' ''real-estate''
        [''price_min'' \<mapsto> IntV 0, ''year_max'' \<mapsto> IntV 2016])). cl_value c = ''production-year'')"
proof -
  let ?f = "[''price_min'' \<mapsto> IntV 0, ''year_max'' \<mapsto> IntV 2016, ''rooms'' \<mapsto> StrV ''2'']"
  let ?g = "[''price_min'' \<mapsto> IntV 0, ''year_max'' \<mapsto> IntV 2016]"
  have a: "q_search (build_payload ''tehran'' ''cars'' ?f) =
     [\<lparr>cl_value = ''price'', cl_min = Some (IntV 0), cl_max = None\<rparr>,
      \<lparr>cl_value = ''production-year'', cl_min = None, cl_max = Some (IntV 2016)\<rparr>]"
    by (simp add: build_payload_def range_clause_def)
  have agree: "\<forall>k\<in>{''price_min'', ''price_max'', ''mileage_min'', ''mileage_max'',
               ''year_min'', ''year_max''}. ?f k = ?g k"
    by simp
  have b: "build_payload ''tehran'' ''cars'' ?f = build_payload ''tehran'' ''cars'' ?g"
    using build_payload_clauses [of "''tehran''" "''cars''" ?f ?g] agree by blast
  have c: "\<not> (\<exists>c\<in>set (q_search (build_payload ''tehran'' ''real-estate'' ?g)).
              cl_value c = ''production-year'')"
    using build_payload_clauses [of "''tehran''" "''real-estate''" ?g ?g] by simp
  show ?thesis using a b c by blast
qed

section \<open>Facts about the sweep\<close>

lemma fromkeys_fold:
  "fold (\<lambda>x keys. if x \<in> set keys then keys else keys @ [x]) xs acc =
     acc @ dedupe (filter (\<lambda>x. x \<notin> set acc) xs)"
proof (induction xs arbitrary: acc)
  case Nil
  show ?case by simp
next
  case (Cons x xs)
  show ?case
  proof (cases "x \<in> set acc")
    case True
    then show ?thesis by (simp add: Cons.IH)
  next
    case False
    have "filter (\<lambda>y. y \<notin> set (acc @ [x])) xs = filter (\<lambda>y. y \<noteq> x) (filter (\<lambda>y. y \<notin> set acc) xs)"
      by (induction xs) auto
    with False show ?thesis by (simp add: Cons.IH)
  qed
qed

lemma dict_fromkeys_dedupe: "dict_fromkeys xs = dedupe xs"
  by (simp add: dict_fromkeys_def fromkeys_fold)

lemma set_dedupe: "set (dedupe xs) = set xs"
  by (induction xs rule: dedupe.induct) auto

lemma distinct_dedupe: "distinct (dedupe xs)"
  by (induction xs rule: dedupe.induct) (auto simp: set_dedupe)

lemma map_of_set_seen:
  "map_of tb pid = Some obj \<Longrightarrow>
     map_of (set_seen pid mru tb) pid = Some (obj\<lparr>last_seen_ids := mru\<rparr>)"
  by (induction tb) (auto simp: set_seen_def split: if_splits)

lemma check_one_ok:
  assumes "divar_search E (pl_city p) (category_token (pl_category p)) (pl_filters p) 8 = Some posts"
    and "new_posts (last_seen_ids p) posts \<noteq> []"
    and "send_posts E (user_id p) (new_posts (last_seen_ids p) posts) (sent w) = (s1, None)"
    and "map_of (db w) pid = Some obj"
  shows "check_one E (pid, p) w =
     (w\<lparr>sent := s1,
        db := set_seen pid
               (take 40 (dedupe (post_ids (new_posts (last_seen_ids p) posts) @ last_seen_ids obj)))
               (db w)\<rparr>, None)"
  using assms by (simp add: check_one_def Let_def dict_fromkeys_dedupe)


lemma check_one_raise:
  assumes "divar_search E (pl_city p) (category_token (pl_category p)) (pl_filters p) 8 = Some posts"
    and "new_posts (last_seen_ids p) posts \<noteq> []"
    and "send_posts E (user_id p) (new_posts (last_seen_ids p) posts) (sent w) = (s1, Some e)"
  shows "check_one E (pid, p) w = (w\<lparr>sent := s1\<rparr>, Some e)"
  using assms by (simp add: check_one_def)

lemma deliver_log:
  "deliver E chat c m imgs s =
     (s @ fst (deliver E chat c m imgs []), snd (deliver E chat c m imgs []))"
  by (cases imgs) (simp_all add: deliver_def bot_do_def Let_def)

lemma send_post_log:
  "send_post E chat p s = (s @ delivered_for E chat p, snd (send_post E chat p []))"
  unfolding delivered_for_def send_post_def by (rule deliver_log)



lemma sweep_append:
  "sweep E (xs @ ys) w =
     (case sweep E xs w of (w1, Some e) \<Rightarrow> (w1, Some e) | (w1, None) \<Rightarrow> sweep E ys w1)"
  by (induction xs arbitrary: w) (auto split: prod.split option.split)

lemma send_post_caught:
  "delivers E (caption_message E chat p) \<Longrightarrow> snd (send_post E chat p s) = None"
  unfolding caption_message_def send_post_def
  by (cases "pick_images E p") (simp_all add: deliver_def bot_do_def Let_def)

lemma send_post_something:
  "snd (send_post E chat p s) = None \<Longrightarrow> delivered_for E chat p \<noteq> []"
  unfolding delivered_for_def send_post_def
  by (cases "pick_images E p") (auto simp: deliver_def bot_do_def Let_def split: if_splits)

lemma send_posts_all:
  "\<forall>x\<in>set ps. delivers E (caption_message E chat x) \<Longrightarrow>
     send_posts E chat ps s = (s @ concat (map (delivered_for E chat) ps), None)"
proof (induction ps arbitrary: s)
  case Nil
  then show ?case by simp
next
  case (Cons p ps)
  have "snd (send_post E chat p s) = None"
    using Cons.prems by (simp add: send_post_caught)
  then have "send_post E chat p s = (s @ delivered_for E chat p, None)"
    using send_post_log [of E chat p s] by (metis snd_conv)
  then show ?case
    using Cons by simp
qed

lemma send_posts_raise:
  "send_posts E chat xs s = (s1, None) \<Longrightarrow> send_post E chat x s1 = (s2, Some e) \<Longrightarrow>
     send_posts E chat (xs @ x # ys) s = (s2, Some e)"
  by (induction xs arbitrary: s) (auto split: prod.splits option.splits)

lemma sample_search:
  "divar_search (sample_env ok (\<lambda>_. Some posts)) c t f limit = Some (collect_posts limit posts [])"
  by (simp add: divar_search_def sample_env_def)

lemma sample_send_post:
  "t \<noteq> [] \<Longrightarrow>
     send_post (sample_env ok prov) chat (sample_post (Some t)) s =
       bot_do (sample_env ok prov) (SendMessage chat t (Some (''https://divar.ir/v/'' @ t))) s"
  by (simp add: send_post_def pick_images_def deliver_def sample_env_def sample_post_def
        truthy_def)

lemma sample_bot:
  "bot_do (sample_env ok prov) c s = (if ok c then (s @ [c], None) else (s, Some SendError))"
  by (simp add: bot_do_def sample_env_def)

lemma sample_post_id: "p_id (sample_post tok) = tok"
  by (simp add: sample_post_def)



section \<open>The seen list after a sweep step\<close>

text \<open>
  Claim C1 as stated fails: the sweep finds the new identifiers \<open>a\<close> and \<open>b\<close> for a
  subscription that has seen nothing; the message of \<open>a\<close> goes through, the message of
  \<open>b\<close> does not, the exception leaves \<^verbatim>\<open>check_once\<close> before the seen list is written,
  and the persisted list is still empty instead of \<open>[a, b]\<close>.
\<close>

theorem seen_update_counterexample:
  "post_ids (new_posts (last_seen_ids (sample_playlist []))
      [sample_post (Some ''a''), sample_post (Some ''b'')]) = [''a'', ''b'']
   \<and> check_once
       (sample_env (\<lambda>c. c \<noteq> SendMessage 7 ''b'' (Some ''https://divar.ir/v/b''))
          (\<lambda>_. Some [sample_post (Some ''a''), sample_post (Some ''b'')]))
       \<lparr>db = [(1, sample_playlist [])], sent = []\<rparr> =
     (\<lparr>db = [(1, sample_playlist [])],
       sent = [SendMessage 7 ''a'' (Some ''https://divar.ir/v/a'')]\<rparr>, Some SendError)
   \<and> take 40 (dedupe ([''a'', ''b''] @ last_seen_ids (sample_playlist []))) = [''a'', ''b'']
   \<and> last_seen_ids (sample_playlist []) = []"
proof (intro conjI)
  let ?posts = "[sample_post (Some ''a''), sample_post (Some ''b'')]"
  let ?E = "sample_env (\<lambda>c. c \<noteq> SendMessage 7 ''b'' (Some ''https://divar.ir/v/b''))
              (\<lambda>_. Some ?posts)"
  let ?p = "sample_playlist []"
  let ?w = "\<lparr>db = [(1, ?p)], sent = []\<rparr>"
  have s: "divar_search ?E (pl_city ?p) (category_token (pl_category ?p)) (pl_filters ?p) 8 =
             Some ?posts"
    by (simp add: sample_search)
  have n: "new_posts (last_seen_ids ?p) ?posts = ?posts"
    by (simp add: new_posts_def sample_playlist_def sample_post_id truthy_def)
  have n2: "new_posts (last_seen_ids ?p) ?posts \<noteq> []"
    unfolding n by simp
  have sp: "send_posts ?E (user_id ?p) (new_posts (last_seen_ids ?p) ?posts) (sent ?w) =
              ([SendMessage 7 ''a'' (Some ''https://divar.ir/v/a'')], Some SendError)"
    unfolding n by (simp add: sample_send_post sample_bot sample_playlist_def)
  have c: "check_one ?E (1, ?p) ?w =
             (\<lparr>db = [(1, ?p)], sent = [SendMessage 7 ''a'' (Some ''https://divar.ir/v/a'')]\<rparr>,
              Some SendError)"
    unfolding check_one_raise [OF s n2 sp] by simp
  show "post_ids (new_posts (last_seen_ids ?p) ?posts) = [''a'', ''b'']"
    unfolding n by (simp add: post_ids_def sample_post_id truthy_def)
  show "check_once ?E ?w =
     (\<lparr>db = [(1, ?p)], sent = [SendMessage 7 ''a'' (Some ''https://divar.ir/v/a'')]\<rparr>,
      Some SendError)"
  proof -
    have "check_once ?E ?w = sweep ?E [(1, ?p)] ?w"
      by (simp add: check_once_def)
    also have "\<dots> = (\<lparr>db = [(1, ?p)],
                     sent = [SendMessage 7 ''a'' (Some ''https://divar.ir/v/a'')]\<rparr>,
                   Some SendError)"
      unfolding sweep.simps c by simp
    finally show ?thesis .
  qed
  show "take 40 (dedupe ([''a'', ''b''] @ last_seen_ids ?p)) = [''a'', ''b'']"
    by (simp add: sample_playlist_def)
  show "last_seen_ids ?p = []"
    by (simp add: sample_playlist_def)
qed

text \<open>
  Claim C1, amended. When the sweep step of a subscription finds new items, all of them
  are sent without an exception and the row is still in the table, the row's seen list
  afterwards is the first 40 entries of \<open>dedupe (newIds @ existingSeen)\<close>, where \<open>newIds\<close>
  are the identifiers of the new items in dispatch order and \<open>dedupe\<close> keeps the first
  occurrence of every identifier; the list has at most 40 entries and no duplicates.
\<close>

theorem check_one_seen:
  assumes "divar_search E (pl_city p) (category_token (pl_category p)) (pl_filters p) 8 = Some posts"
    and "new_posts (last_seen_ids p) posts \<noteq> []"
    and "send_posts E (user_id p) (new_posts (last_seen_ids p) posts) (sent w) = (s1, None)"
    and "map_of (db w) pid = Some obj"
  shows "\<exists>w'. check_one E (pid, p) w = (w', None) \<and>
     map_of (db w') pid =
       Some (obj\<lparr>last_seen_ids :=
          take 40 (dedupe (post_ids (new_posts (last_seen_ids p) posts) @ last_seen_ids obj))\<rparr>) \<and>
     (\<forall>r. map_of (db w') pid = Some r \<longrightarrow>
        length (last_seen_ids r) \<le> 40 \<and> distinct (last_seen_ids r))"
proof -
  let ?mru = "take 40 (dedupe (post_ids (new_posts (last_seen_ids p) posts) @ last_seen_ids obj))"
  let ?w = "w\<lparr>sent := s1, db := set_seen pid ?mru (db w)\<rparr>"
  have 1: "check_one E (pid, p) w = (?w, None)"
    using assms by (rule check_one_ok)
  have 2: "map_of (db ?w) pid = Some (obj\<lparr>last_seen_ids := ?mru\<rparr>)"
    using assms(4) by (simp add: map_of_set_seen)
  have 3: "length ?mru \<le> 40 \<and> distinct ?mru"
    by (simp add: distinct_dedupe)
  show ?thesis
    using 1 2 3 by (intro exI [of _ ?w]) simp
qed

theorem check_one_seen_witness:
  "\<exists>w'. check_one
       (sample_env (\<lambda>_. True)
          (\<lambda>_. Some [sample_post (Some ''d''), sample_post (Some ''e''), sample_post (Some ''a'')]))
       (1, sample_playlist [''a'', ''b'', ''c''])
       \<lparr>db = [(1, sample_playlist [''a'', ''b'', ''c''])], sent = []\<rparr> = (w', None) \<and>
     map_of (db w') 1 = Some (sample_playlist [''d'', ''e'', ''a'', ''b'', ''c''])"
proof -
  let ?posts = "[sample_post (Some ''d''), sample_post (Some ''e''), sample_post (Some ''a'')]"
  let ?E = "sample_env (\<lambda>_. True) (\<lambda>_. Some ?posts)"
  let ?p = "sample_playlist [''a'', ''b'', ''c'']"
  let ?w = "\<lparr>db = [(1, ?p)], sent = []\<rparr>"
  have h1: "divar_search ?E (pl_city ?p) (category_token (pl_category ?p)) (pl_filters ?p) 8 =
              Some ?posts"
    by (simp add: sample_search)
  have n: "new_posts (last_seen_ids ?p) ?posts = [sample_post (Some ''d''), sample_post (Some ''e'')]"
    by (simp add: new_posts_def sample_playlist_def sample_post_id truthy_def)
  have h2: "new_posts (last_seen_ids ?p) ?posts \<noteq> []"
    by (simp add: n)
  have h3: "send_posts ?E (user_id ?p) (new_posts (last_seen_ids ?p) ?posts) (sent ?w) =
              ([SendMessage 7 ''d'' (Some ''https://divar.ir/v/d''),
                SendMessage 7 ''e'' (Some ''https://divar.ir/v/e'')], None)"
    unfolding n by (simp add: sample_send_post sample_bot sample_playlist_def)
  have h4: "map_of (db ?w) 1 = Some ?p"
    by simp
  have ids: "post_ids [sample_post (Some ''d''), sample_post (Some ''e'')] = [''d'', ''e'']"
    by (simp add: post_ids_def sample_post_id truthy_def)
  have mru: "?p\<lparr>last_seen_ids := take 40 (dedupe ([''d'', ''e''] @ last_seen_ids ?p))\<rparr> =
               sample_playlist [''d'', ''e'', ''a'', ''b'', ''c'']"
    by (simp add: sample_playlist_def)
  show ?thesis
    using check_one_seen [OF h1 h2 h3 h4] unfolding n ids mru by blast
qed

section \<open>The new items of a sweep step\<close>




section \<open>A provider failure\<close>

text \<open>
  Claim C5. When the provider call for a subscription raises, the sweep step of that
  subscription changes nothing (no message, no seen list) and raises nothing, and the
  sweep over all subscriptions is the sweep over the others: every other subscription is
  searched, served and updated as if the failing one were not in the table. The same
  holds for \<^verbatim>\<open>check_once\<close>, whose snapshot is the table.
\<close>

theorem provider_failure_skips:
  assumes "provider E (build_payload (pl_city p) (category_token (pl_category p)) (pl_filters p)) = None"
  shows "check_one E (pid, p) w = (w, None)
       \<and> sweep E (pre @ (pid, p) # rest) w = sweep E (pre @ rest) w
       \<and> (db w = pre @ (pid, p) # rest \<longrightarrow> check_once E w = sweep E (pre @ rest) w)"
proof -
  have 1: "check_one E (pid, p) w' = (w', None)" for w'
    using assms by (simp add: check_one_def divar_search_def)
  have 2: "sweep E ((pid, p) # rest) w' = sweep E rest w'" for w'
    by (simp add: 1)
  have 3: "sweep E (pre @ (pid, p) # rest) w = sweep E (pre @ rest) w"
    unfolding sweep_append [of E pre] 2 ..
  have 4: "db w = pre @ (pid, p) # rest \<longrightarrow> check_once E w = sweep E (pre @ rest) w"
    using 3 by (simp add: check_once_def)
  from 1 [of w] 3 4 show ?thesis by (intro conjI)
qed

theorem provider_failure_skips_witness:
  "sweep
     (sample_env (\<lambda>_. True)
        (\<lambda>q. if q_cities q = [''tehran''] then None else Some [sample_post (Some ''x'')]))
     [(1, sample_playlist []), (2, (sample_playlist [])\<lparr>pl_city := ''shiraz''\<rparr>)]
     \<lparr>db = [(1, sample_playlist []), (2, (sample_playlist [])\<lparr>pl_city := ''shiraz''\<rparr>)],
      sent = []\<rparr> =
   (\<lparr>db = [(1, sample_playlist []), (2, (sample_playlist [''x''])\<lparr>pl_city := ''shiraz''\<rparr>)],
     sent = [SendMessage 7 ''x'' (Some ''https://divar.ir/v/x'')]\<rparr>, None)"
proof -
  let ?E = "sample_env (\<lambda>_. True)
        (\<lambda>q. if q_cities q = [''tehran''] then None else Some [sample_post (Some ''x'')])"
  let ?p1 = "sample_playlist []"
  let ?p2 = "(sample_playlist [])\<lparr>pl_city := ''shiraz''\<rparr>"
  let ?w = "\<lparr>db = [(1, ?p1), (2, ?p2)], sent = []\<rparr>"
  have h: "provider ?E (build_payload (pl_city ?p1) (category_token (pl_category ?p1))
             (pl_filters ?p1)) = None"
    by (simp add: sample_env_def sample_playlist_def build_payload_def)
  have skip: "sweep ?E ([] @ (1, ?p1) # [(2, ?p2)]) ?w = sweep ?E ([] @ [(2, ?p2)]) ?w"
    using provider_failure_skips [OF h, of 1 ?w "[]" "[(2, ?p2)]"] by (elim conjE)
  have s: "divar_search ?E (pl_city ?p2) (category_token (pl_category ?p2)) (pl_filters ?p2) 8 =
             Some [sample_post (Some ''x'')]"
    by (simp add: divar_search_def sample_env_def sample_playlist_def build_payload_def)
  have n: "new_posts (last_seen_ids ?p2) [sample_post (Some ''x'')] = [sample_post (Some ''x'')]"
    by (simp add: new_posts_def sample_playlist_def sample_post_id truthy_def)
  have n2: "new_posts (last_seen_ids ?p2) [sample_post (Some ''x'')] \<noteq> []"
    unfolding n by simp
  have sp: "send_posts ?E (user_id ?p2) (new_posts (last_seen_ids ?p2) [sample_post (Some ''x'')])
              (sent ?w) = ([SendMessage 7 ''x'' (Some ''https://divar.ir/v/x'')], None)"
    unfolding n by (simp add: sample_send_post sample_bot sample_playlist_def)
  have m: "map_of (db ?w) 2 = Some ?p2"
    by simp
  have ids: "post_ids [sample_post (Some ''x'')] = [''x'']"
    by (simp add: post_ids_def sample_post_id truthy_def)
  have c2: "check_one ?E (2, ?p2) ?w =
             (\<lparr>db = [(1, ?p1), (2, (sample_playlist [''x''])\<lparr>pl_city := ''shiraz''\<rparr>)],
               sent = [SendMessage 7 ''x'' (Some ''https://divar.ir/v/x'')]\<rparr>, None)"
    unfolding check_one_ok [OF s n2 sp m] n ids
    by (simp add: set_seen_def sample_playlist_def)
  show ?thesis
    using skip c2 by simp
qed

section \<open>A dispatch failure\<close>

text \<open>
  Claim C4 as stated fails: when the text message of the first new item does not go
  through, the exception leaves \<^verbatim>\<open>check_once\<close>; the second item, whose message would
  go through, is never sent and the seen list stays as it was.
\<close>

theorem dispatch_failure_counterexample:
  "delivers
     (sample_env (\<lambda>c. c \<noteq> SendMessage 7 ''a'' (Some ''https://divar.ir/v/a''))
        (\<lambda>_. Some [sample_post (Some ''a''), sample_post (Some ''b'')]))
     (caption_message
        (sample_env (\<lambda>c. c \<noteq> SendMessage 7 ''a'' (Some ''https://divar.ir/v/a''))
           (\<lambda>_. Some [sample_post (Some ''a''), sample_post (Some ''b'')]))
        7 (sample_post (Some ''b'')))
   \<and> check_one
       (sample_env (\<lambda>c. c \<noteq> SendMessage 7 ''a'' (Some ''https://divar.ir/v/a''))
          (\<lambda>_. Some [sample_post (Some ''a''), sample_post (Some ''b'')]))
       (1, sample_playlist [])
       \<lparr>db = [(1, sample_playlist [])], sent = []\<rparr> =
     (\<lparr>db = [(1, sample_playlist [])], sent = []\<rparr>, Some SendError)"
proof -
  let ?posts = "[sample_post (Some ''a''), sample_post (Some ''b'')]"
  let ?E = "sample_env (\<lambda>c. c \<noteq> SendMessage 7 ''a'' (Some ''https://divar.ir/v/a''))
              (\<lambda>_. Some ?posts)"
  let ?p = "sample_playlist []"
  let ?w = "\<lparr>db = [(1, ?p)], sent = []\<rparr>"
  have d: "delivers ?E (caption_message ?E 7 (sample_post (Some ''b'')))"
    by (simp add: caption_message_def sample_env_def sample_post_def truthy_def)
  have s: "divar_search ?E (pl_city ?p) (category_token (pl_category ?p)) (pl_filters ?p) 8 =
             Some ?posts"
    by (simp add: sample_search)
  have n: "new_posts (last_seen_ids ?p) ?posts = ?posts"
    by (simp add: new_posts_def sample_playlist_def sample_post_id truthy_def)
  have n2: "new_posts (last_seen_ids ?p) ?posts \<noteq> []"
    unfolding n by simp
  have sp: "send_posts ?E (user_id ?p) (new_posts (last_seen_ids ?p) ?posts) (sent ?w) =
              ([], Some SendError)"
    unfolding n by (simp add: sample_send_post sample_bot sample_playlist_def)
  have c: "check_one ?E (1, ?p) ?w = (?w, Some SendError)"
    unfolding check_one_raise [OF s n2 sp] by simp
  from d c show ?thesis by (rule conjI)
qed

text \<open>
  Claim C4, amended. A failure of the media group or of the button message of an item is
  caught inside \<^verbatim>\<open>send_post\<close> and answered by the plain text message: when the text
  message of every new item goes through, every new item is sent something, in order,
  and the seen list is updated. A failure of the text message itself is not caught:
  the exception leaves the sweep step with the later items unsent and the table as it
  was.
\<close>

theorem dispatch_failures:
  assumes "divar_search E (pl_city p) (category_token (pl_category p)) (pl_filters p) 8 = Some posts"
    and "new_posts (last_seen_ids p) posts \<noteq> []"
    and "map_of (db w) pid = Some obj"
  shows "((\<forall>x\<in>set (new_posts (last_seen_ids p) posts).
             delivers E (caption_message E (user_id p) x)) \<longrightarrow>
          (\<exists>w'. check_one E (pid, p) w = (w', None) \<and>
             sent w' = sent w @ concat (map (delivered_for E (user_id p))
                                          (new_posts (last_seen_ids p) posts)) \<and>
             (\<forall>x\<in>set (new_posts (last_seen_ids p) posts). delivered_for E (user_id p) x \<noteq> []) \<and>
             map_of (db w') pid =
               Some (obj\<lparr>last_seen_ids :=
                  take 40 (dedupe (post_ids (new_posts (last_seen_ids p) posts) @
                                   last_seen_ids obj))\<rparr>)))
       \<and> (\<forall>xs x ys s1 s2 e.
            new_posts (last_seen_ids p) posts = xs @ x # ys \<and>
            send_posts E (user_id p) xs (sent w) = (s1, None) \<and>
            send_post E (user_id p) x s1 = (s2, Some e) \<longrightarrow>
            check_one E (pid, p) w = (w\<lparr>sent := s2\<rparr>, Some e))"
proof (intro conjI impI allI)
  let ?new = "new_posts (last_seen_ids p) posts"
  let ?D = "delivered_for E (user_id p)"
  assume all: "\<forall>x\<in>set ?new. delivers E (caption_message E (user_id p) x)"
  let ?s1 = "sent w @ concat (map ?D ?new)"
  let ?mru = "take 40 (dedupe (post_ids ?new @ last_seen_ids obj))"
  let ?w = "w\<lparr>sent := ?s1, db := set_seen pid ?mru (db w)\<rparr>"
  have sp: "send_posts E (user_id p) ?new (sent w) = (?s1, None)"
    using all by (rule send_posts_all)
  have 1: "check_one E (pid, p) w = (?w, None)"
    using assms(1,2) sp assms(3) by (rule check_one_ok)
  have 2: "sent ?w = ?s1" by simp
  have 3: "\<forall>x\<in>set ?new. ?D x \<noteq> []"
  proof
    fix x assume "x \<in> set ?new"
    with all have "delivers E (caption_message E (user_id p) x)" by blast
    then have "snd (send_post E (user_id p) x []) = None" by (rule send_post_caught)
    then show "?D x \<noteq> []" by (rule send_post_something)
  qed
  have 4: "map_of (db ?w) pid = Some (obj\<lparr>last_seen_ids := ?mru\<rparr>)"
    using assms(3) by (simp add: map_of_set_seen)
  show "\<exists>w'. check_one E (pid, p) w = (w', None) \<and> sent w' = ?s1 \<and>
          (\<forall>x\<in>set ?new. ?D x \<noteq> []) \<and>
          map_of (db w') pid = Some (obj\<lparr>last_seen_ids := ?mru\<rparr>)"
    using 1 2 3 4 by (intro exI [of _ ?w] conjI)
next
  fix xs x ys s1 s2 e
  assume a: "new_posts (last_seen_ids p) posts = xs @ x # ys \<and>
            send_posts E (user_id p) xs (sent w) = (s1, None) \<and>
            send_post E (user_id p) x s1 = (s2, Some e)"
  then have "send_posts E (user_id p) (xs @ x # ys) (sent w) = (s2, Some e)"
    by (simp add: send_posts_raise)
  then have "send_posts E (user_id p) (new_posts (last_seen_ids p) posts) (sent w) = (s2, Some e)"
    using a by simp
  with assms(1,2) show "check_one E (pid, p) w = (w\<lparr>sent := s2\<rparr>, Some e)"
    by (rule check_one_raise)
qed

theorem dispatch_failures_witness:
  "\<exists>w'. check_one
       (sample_env (\<lambda>c. case c of SendMediaGroup _ _ \<Rightarrow> False | SendMessage _ _ _ \<Rightarrow> True)
          (\<lambda>_. Some [(sample_post (Some ''a''))\<lparr>p_images := [''i1'', ''i2'']\<rparr>]))
       (1, sample_playlist [])
       \<lparr>db = [(1, sample_playlist [])], sent = []\<rparr> = (w', None) \<and>
     sent w' = [SendMessage 7 ''a'' (Some ''https://divar.ir/v/a'')] \<and>
     map_of (db w') 1 = Some (sample_playlist [''a''])"
proof -
  let ?pa = "(sample_post (Some ''a''))\<lparr>p_images := [''i1'', ''i2'']\<rparr>"
  let ?E = "sample_env (\<lambda>c. case c of SendMediaGroup _ _ \<Rightarrow> False | SendMessage _ _ _ \<Rightarrow> True)
              (\<lambda>_. Some [?pa])"
  let ?p = "sample_playlist []"
  let ?w = "\<lparr>db = [(1, ?p)], sent = []\<rparr>"
  have h1: "divar_search ?E (pl_city ?p) (category_token (pl_category ?p)) (pl_filters ?p) 8 =
              Some [?pa]"
    by (simp add: sample_search)
  have n: "new_posts (last_seen_ids ?p) [?pa] = [?pa]"
    by (simp add: new_posts_def sample_playlist_def sample_post_def truthy_def)
  have h2: "new_posts (last_seen_ids ?p) [?pa] \<noteq> []"
    unfolding n by simp
  have h3: "map_of (db ?w) 1 = Some ?p"
    by simp
  have all: "\<forall>x\<in>set (new_posts (last_seen_ids ?p) [?pa]).
               delivers ?E (caption_message ?E (user_id ?p) x)"
    unfolding n by (simp add: caption_message_def sample_env_def)
  have d: "delivered_for ?E (user_id ?p) ?pa = [SendMessage 7 ''a'' (Some ''https://divar.ir/v/a'')]"
    by (simp add: delivered_for_def send_post_def pick_images_def deliver_def bot_do_def
          sample_env_def sample_post_def sample_playlist_def truthy_def)
  have ids: "post_ids [?pa] = [''a'']"
    by (simp add: post_ids_def sample_post_def truthy_def)
  have mru: "?p\<lparr>last_seen_ids := take 40 (dedupe ([''a''] @ last_seen_ids ?p))\<rparr> =
               sample_playlist [''a'']"
    by (simp add: sample_playlist_def)
  from dispatch_failures [OF h1 h2 h3] all
  have "\<exists>w'. check_one ?E (1, ?p) ?w = (w', None) \<and>
             sent w' = sent ?w @ concat (map (delivered_for ?E (user_id ?p))
                                          (new_posts (last_seen_ids ?p) [?pa])) \<and>
             (\<forall>x\<in>set (new_posts (last_seen_ids ?p) [?pa]). delivered_for ?E (user_id ?p) x \<noteq> []) \<and>
             map_of (db w') 1 =
               Some (?p\<lparr>last_seen_ids :=
                  take 40 (dedupe (post_ids (new_posts (last_seen_ids ?p) [?pa]) @
                                   last_seen_ids ?p))\<rparr>)"
    by blast
  then obtain w' where
    1: "check_one ?E (1, ?p) ?w = (w', None)" and
    2: "sent w' = sent ?w @ concat (map (delivered_for ?E (user_id ?p))
                                          (new_posts (last_seen_ids ?p) [?pa]))" and
    3: "map_of (db w') 1 =
               Some (?p\<lparr>last_seen_ids :=
                  take 40 (dedupe (post_ids (new_posts (last_seen_ids ?p) [?pa]) @
                                   last_seen_ids ?p))\<rparr>)"
    by blast
  have s2: "sent w' = [SendMessage 7 ''a'' (Some ''https://divar.ir/v/a'')]"
    using 2 unfolding n by (simp add: d)
  have m3: "map_of (db w') 1 = Some (sample_playlist [''a''])"
    using 3 unfolding n ids mru .
  from 1 s2 m3 show ?thesis by blast
qed

section \<open>Facts about the filter flow\<close>

lemma py_split_cut:
  "sep \<notin> set a \<Longrightarrow> py_split sep (Suc n) (a @ sep # b) = a # py_split sep n b"
proof -
  assume a: "sep \<notin> set a"
  then have all: "\<forall>c\<in>set a. c \<noteq> sep" by blast
  have t: "takeWhile (\<lambda>c. c \<noteq> sep) (a @ sep # b) = a"
    using all by (simp add: takeWhile_tail)
  have d: "dropWhile (\<lambda>c. c \<noteq> sep) (a @ sep # b) = sep # b"
    using all by simp
  show ?thesis by (simp add: t d)
qed

lemma py_split_flt:
  assumes "CHR '':'' \<notin> set step"
  shows "py_split (CHR '':'') 2 (flt_data step v) = [''flt'', step, v]"
proof -
  have 1: "flt_data step v = ''flt'' @ CHR '':'' # (step @ CHR '':'' # v)"
    by (simp add: flt_data_def)
  have 2: "CHR '':'' \<notin> set ''flt''" by simp
  have "py_split (CHR '':'') (Suc (Suc 0)) (flt_data step v) =
          ''flt'' # py_split (CHR '':'') (Suc 0) (step @ CHR '':'' # v)"
    unfolding 1 using 2 by (rule py_split_cut)
  also have "py_split (CHR '':'') (Suc 0) (step @ CHR '':'' # v) = step # py_split (CHR '':'') 0 v"
    using assms by (rule py_split_cut)
  finally show ?thesis by (simp add: numeral_2_eq_2)
qed

lemma catalogue_mem:
  "map_of CATEGORY_FLOWS cat = Some cfg \<Longrightarrow> (cat, cfg) \<in> set CATEGORY_FLOWS"
  by (rule map_of_SomeD)

lemma catalogue_tokens:
  "\<forall>(cat, cfg)\<in>set CATEGORY_FLOWS. cat \<in> fst ` set CATEGORY_TOKENS"
  by (simp add: CATEGORY_FLOWS_def CATEGORY_TOKENS_def)

lemma catalogue_steps:
  "\<forall>(cat, cfg)\<in>set CATEGORY_FLOWS. \<forall>s\<in>set (steps cfg).
      CHR '':'' \<notin> set s \<and> s \<in> set (labels cfg) \<and> map_of (options cfg) s \<noteq> None"
  by (simp add: CATEGORY_FLOWS_def)

lemma catalogue_fields:
  "\<forall>(cat, cfg)\<in>set CATEGORY_FLOWS. \<forall>s\<in>set (steps cfg).
      step_fields cfg s = mapped_fields cfg s"
  by (simp add: CATEGORY_FLOWS_def step_fields_def mapped_fields_def rng_def enm_def
        condition_opts_def)

lemma show_step_known:
  assumes "map_of CATEGORY_FLOWS cat = Some cfg" and "s \<in> set (steps cfg)"
  shows "\<exists>kb. show_step cat s = Prompt cat s kb"
proof -
  from assms(1) have "(cat, cfg) \<in> set CATEGORY_FLOWS" by (rule catalogue_mem)
  with catalogue_steps assms(2)
  have "s \<in> set (labels cfg) \<and> map_of (options cfg) s \<noteq> None" by blast
  then obtain opts where "s \<in> set (labels cfg)" and "map_of (options cfg) s = Some opts"
    by blast
  with assms(1) show ?thesis by (simp add: show_step_def)
qed

lemma dom_store_range:
  "dom (store_range f kmin kmax v) = dom f \<union> {kmin, kmax}"
proof (cases "CHR ''-'' \<in> set v")
  case True
  then obtain lo hi where v: "v = lo @ CHR ''-'' # hi" and lo: "CHR ''-'' \<notin> set lo"
    using dash_decomp by blast
  show ?thesis
    unfolding v store_range_dash [OF lo]
    by (cases "py_int lo"; cases "py_int hi") auto
next
  case False
  then show ?thesis by (auto simp: store_range_def)
qed

lemma store_known:
  assumes "map_of CATEGORY_FLOWS cat = Some cfg"
  shows "\<exists>f'. store_filter_value cat f step v = Inr f' \<and>
           dom f' = dom f \<union> mapped_fields cfg step"
proof (cases "map_of (map_keys cfg) step")
  case None
  with assms show ?thesis
    by (simp add: store_filter_value_def mapped_fields_def)
next
  case (Some ks)
  obtain kmin kmax where ks: "ks = (kmin, kmax)" by (cases ks)
  from assms Some ks show ?thesis
    by (simp add: store_filter_value_def mapped_fields_def dom_store_range)
qed

lemma on_flt_answer:
  assumes "bs uid = Some st"
    and "st_category st = Some cat"
    and "map_of CATEGORY_FLOWS cat = Some cfg"
    and "st_filters st = Some f"
    and "st_flow st = Some fl"
    and "st_flow_idx st = Some i"
    and "st_city st = Some city"
    and "CHR '':'' \<notin> set step"
    and "store_filter_value cat f step v = Inr f'"
  shows "on_flt bs uid (flt_data step v) =
     (if i + 1 < length fl
      then (bs(uid \<mapsto> st\<lparr>st_filters := Some f', st_flow_idx := Some (i + 1)\<rparr>),
            show_step cat (fl ! (i + 1)))
      else (bs(uid := None),
            Finished (finished_row uid cfg cat city (st_district st) f')))"
  using assms
  by (simp add: on_flt_def py_split_flt finished_row_def Let_def)

lemma catalogue_nonempty:
  "\<forall>(cat, cfg)\<in>set CATEGORY_FLOWS. steps cfg \<noteq> []"
  by (simp add: CATEGORY_FLOWS_def)

lemma flow_started:
  assumes "map_of CATEGORY_FLOWS cat = Some cfg"
  shows "fst (on_dist (fst (on_city (fst (on_cat bs uid cat)) uid city)) uid dist) =
           bs(uid \<mapsto> started cfg cat city dist)"
proof -
  from assms have "(cat, cfg) \<in> set CATEGORY_FLOWS" by (rule catalogue_mem)
  with catalogue_tokens have tok: "cat \<in> fst ` set CATEGORY_TOKENS" by blast
  have 1: "fst (on_cat bs uid cat) =
             bs(uid \<mapsto> \<lparr>st_step = ''city'', st_category = Some cat, st_city = None,
                    st_district = None, st_filters = Some Map.empty,
                    st_flow = Some (steps cfg), st_flow_idx = Some 0\<rparr>)"
    using assms tok by (simp add: on_cat_def)
  have 2: "fst (on_city (fst (on_cat bs uid cat)) uid city) =
             bs(uid \<mapsto> \<lparr>st_step = ''district'', st_category = Some cat, st_city = Some city,
                    st_district = None, st_filters = Some Map.empty,
                    st_flow = Some (steps cfg), st_flow_idx = Some 0\<rparr>)"
    unfolding 1 by (simp add: on_city_def)
  show ?thesis
    unfolding 2 by (simp add: on_dist_def started_def Let_def)
qed

lemma walk:
  assumes cfg: "map_of CATEGORY_FLOWS cat = Some cfg"
  shows "bs uid = Some st \<Longrightarrow> st_category st = Some cat \<Longrightarrow> st_filters st = Some f \<Longrightarrow>
     st_flow st = Some (steps cfg) \<Longrightarrow> st_flow_idx st = Some i \<Longrightarrow> st_city st = Some city \<Longrightarrow>
     i < length (steps cfg) \<Longrightarrow> length vs = length (steps cfg) - i \<Longrightarrow>
     \<exists>outs ffin.
        answer_all bs uid (map2 flt_data (drop i (steps cfg)) vs) =
          (bs(uid := None),
           outs @ [Finished (finished_row uid cfg cat city (st_district st) ffin)]) \<and>
        (\<forall>out\<in>set outs. \<exists>s kb. out = Prompt cat s kb) \<and>
        dom ffin = dom f \<union> (\<Union>s\<in>set (drop i (steps cfg)). mapped_fields cfg s)"
proof (induction vs arbitrary: bs st f i)
  case Nil
  then show ?case by simp
next
  case (Cons v vs)
  let ?s = "steps cfg ! i"
  have mem: "(cat, cfg) \<in> set CATEGORY_FLOWS" using cfg by (rule catalogue_mem)
  have dr: "drop i (steps cfg) = ?s # drop (Suc i) (steps cfg)"
    using Cons.prems(7) by (simp add: Cons_nth_drop_Suc)
  have "?s \<in> set (steps cfg)" using Cons.prems(7) by simp
  with catalogue_steps mem have colon: "CHR '':'' \<notin> set ?s" by blast
  obtain f' where st: "store_filter_value cat f ?s v = Inr f'"
    and dm: "dom f' = dom f \<union> mapped_fields cfg ?s"
    using store_known [OF cfg] by blast
  note ans = on_flt_answer [where bs = bs and uid = uid, OF Cons.prems(1,2) cfg Cons.prems(3,4,5,6) colon st]
  show ?case
  proof (cases "Suc i < length (steps cfg)")
    case True
    let ?st2 = "st\<lparr>st_filters := Some f', st_flow_idx := Some (Suc i)\<rparr>"
    let ?bs2 = "bs(uid \<mapsto> ?st2)"
    have "steps cfg ! Suc i \<in> set (steps cfg)" using True by simp
    with show_step_known [OF cfg] obtain kb where
      kb: "show_step cat (steps cfg ! Suc i) = Prompt cat (steps cfg ! Suc i) kb" by blast
    have step: "on_flt bs uid (flt_data ?s v) = (?bs2, Prompt cat (steps cfg ! Suc i) kb)"
      using ans True kb by simp
    have len: "length vs = length (steps cfg) - Suc i"
      using Cons.prems(8) by simp
    have "\<exists>outs ffin.
        answer_all ?bs2 uid (map2 flt_data (drop (Suc i) (steps cfg)) vs) =
          (?bs2(uid := None),
           outs @ [Finished (finished_row uid cfg cat city (st_district ?st2) ffin)]) \<and>
        (\<forall>out\<in>set outs. \<exists>s kb. out = Prompt cat s kb) \<and>
        dom ffin = dom f' \<union> (\<Union>s\<in>set (drop (Suc i) (steps cfg)). mapped_fields cfg s)"
      using Cons.prems(2,4,6)
      by (intro Cons.IH [of ?bs2 ?st2 f' "Suc i"]) (simp_all add: True len)
    then obtain outs ffin where
      a: "answer_all ?bs2 uid (map2 flt_data (drop (Suc i) (steps cfg)) vs) =
            (bs(uid := None),
             outs @ [Finished (finished_row uid cfg cat city (st_district st) ffin)])" and
      b: "\<forall>out\<in>set outs. \<exists>s kb. out = Prompt cat s kb" and
      c: "dom ffin = dom f' \<union> (\<Union>s\<in>set (drop (Suc i) (steps cfg)). mapped_fields cfg s)"
      by auto
    let ?outs = "Prompt cat (steps cfg ! Suc i) kb # outs"
    have a': "answer_all bs uid (map2 flt_data (drop i (steps cfg)) (v # vs)) =
            (bs(uid := None),
             ?outs @ [Finished (finished_row uid cfg cat city (st_district st) ffin)])"
      unfolding dr by (simp add: step a)
    have b': "\<forall>out\<in>set ?outs. \<exists>s kb. out = Prompt cat s kb"
      using b by simp
    have c': "dom ffin = dom f \<union> (\<Union>s\<in>set (drop i (steps cfg)). mapped_fields cfg s)"
      unfolding dr c dm by auto
    from a' b' c' show ?thesis by blast
  next
    case False
    then have last: "drop (Suc i) (steps cfg) = []" by simp
    have step: "on_flt bs uid (flt_data ?s v) =
                  (bs(uid := None), Finished (finished_row uid cfg cat city (st_district st) f'))"
      using ans False by simp
    have a': "answer_all bs uid (map2 flt_data (drop i (steps cfg)) (v # vs)) =
            (bs(uid := None),
             [] @ [Finished (finished_row uid cfg cat city (st_district st) f')])"
      unfolding dr last by (simp add: step)
    have b': "\<forall>out\<in>set ([] :: outcome list). \<exists>s kb. out = Prompt cat s kb"
      by simp
    have c': "dom f' = dom f \<union> (\<Union>s\<in>set (drop i (steps cfg)). mapped_fields cfg s)"
      unfolding dr last dm by simp
    from a' b' c' show ?thesis by blast
  qed
qed

lemma car_flow:
  "map_of CATEGORY_FLOWS ''car'' =
     Some \<lparr>title = ''Car'',
       steps = [''mileage'', ''year'', ''price''],
       labels = [''mileage'', ''year'', ''price''],
       options =
         [(''mileage'', rng [''0-50000'', ''50000-100000'', ''100000-200000'',
                             ''200000-350000'', ''350000-500000'', ''500000-10000000'']),
          (''year'', rng [''2006-2011'', ''2011-2016'', ''2016-2021'', ''2021-2025'']),
          (''price'', rng [''0-300000000'', ''300000000-700000000'',
                           ''700000000-1500000000'', ''1500000000-100000000000''])],
       map_keys =
         [(''mileage'', ''mileage_min'', ''mileage_max''),
          (''year'', ''year_min'', ''year_max''),
          (''price'', ''price_min'', ''price_max'')]\<rparr>"
  by (simp add: CATEGORY_FLOWS_def)

lemma show_year:
  "show_step ''car'' ''year'' =
     Prompt ''car'' ''year''
       [[''flt:year:2006-2011'', ''flt:year:2011-2016'', ''flt:year:2016-2021''],
        [''flt:year:2021-2025'']]"
  by (simp add: show_step_def car_flow build_grid_buttons_def rng_def)

lemma sample_session_reached:
  "fst (on_dist (fst (on_city (fst (on_cat Map.empty 7 ''car'')) 7 ''tehran'')) 7 ''__ALL__'') =
     [7 \<mapsto> sample_session]"
  unfolding flow_started [OF car_flow]
  by (simp add: started_def sample_session_def)

lemma answer_accepted:
  assumes "bs uid = Some st"
    and "st_category st = Some cat"
    and "map_of CATEGORY_FLOWS cat = Some cfg"
    and "st_filters st = Some f"
    and "st_flow st = Some (steps cfg)"
    and "st_flow_idx st = Some i"
    and "st_city st = Some city"
    and "i < length (steps cfg)"
    and "CHR '':'' \<notin> set step"
  shows "\<exists>f'. store_filter_value cat f step v = Inr f' \<and>
           dom f' = dom f \<union> mapped_fields cfg step \<and>
           (if i + 1 < length (steps cfg)
            then \<exists>kb. on_flt bs uid (flt_data step v) =
                   (bs(uid \<mapsto> st\<lparr>st_filters := Some f', st_flow_idx := Some (i + 1)\<rparr>),
                    Prompt cat (steps cfg ! (i + 1)) kb)
            else on_flt bs uid (flt_data step v) =
                   (bs(uid := None),
                    Finished (finished_row uid cfg cat city (st_district st) f')))"
proof -
  obtain f' where st: "store_filter_value cat f step v = Inr f'"
    and dm: "dom f' = dom f \<union> mapped_fields cfg step"
    using store_known [OF assms(3)] by blast
  note ans = on_flt_answer [where bs = bs and uid = uid, OF assms(1,2,3,4,5,6,7,9) st]
  have third: "if i + 1 < length (steps cfg)
            then \<exists>kb. on_flt bs uid (flt_data step v) =
                   (bs(uid \<mapsto> st\<lparr>st_filters := Some f', st_flow_idx := Some (i + 1)\<rparr>),
                    Prompt cat (steps cfg ! (i + 1)) kb)
            else on_flt bs uid (flt_data step v) =
                   (bs(uid := None),
                    Finished (finished_row uid cfg cat city (st_district st) f'))"
  proof (cases "i + 1 < length (steps cfg)")
    case True
    then have "steps cfg ! (i + 1) \<in> set (steps cfg)" by simp
    with show_step_known [OF assms(3)] obtain kb where
      "show_step cat (steps cfg ! (i + 1)) = Prompt cat (steps cfg ! (i + 1)) kb" by blast
    with ans True show ?thesis by simp
  next
    case False
    with ans show ?thesis by simp
  qed
  from st dm third show ?thesis by blast
qed

lemma sample_session_fields:
  "st_category sample_session = Some ''car''"
  "st_filters sample_session = Some Map.empty"
  "st_flow sample_session = Some [''mileage'', ''year'', ''price'']"
  "st_flow_idx sample_session = Some 0"
  "st_city sample_session = Some ''tehran''"
  by (simp_all add: sample_session_def)

lemma car_steps:
  "\<exists>cfg. map_of CATEGORY_FLOWS ''car'' = Some cfg \<and> steps cfg = [''mileage'', ''year'', ''price'']"
  by (simp add: car_flow)

lemma entertainment_flow:
  "map_of CATEGORY_FLOWS ''entertainment'' =
     Some \<lparr>title = ''Entertainment'',
       steps = [''sub'', ''price''],
       labels = [''sub'', ''price''],
       options =
         [(''sub'', enm [''videogame'', ''book'', ''music'']),
          (''price'', rng [''0-2000000'', ''2000000-5000000'',
                           ''5000000-15000000'', ''15000000-1000000000''])],
       map_keys = [(''price'', ''price_min'', ''price_max'')]\<rparr>"
  by (simp add: CATEGORY_FLOWS_def)

lemma entertainment_fields:
  "\<exists>cfg. map_of CATEGORY_FLOWS ''entertainment'' = Some cfg \<and>
     steps cfg = [''sub'', ''price''] \<and>
     (\<Union>s\<in>set (steps cfg). step_fields cfg s) = {''sub'', ''price_min'', ''price_max''}"
  unfolding entertainment_flow
  by (simp add: step_fields_def enm_def rng_def insert_commute)

section \<open>An answer with a value that is not an option\<close>

text \<open>
  Claim C2 as stated fails: \<^verbatim>\<open>bogus\<close> is not an option of the mileage step, yet the
  answer is taken: both mileage fields receive the string, the index moves on to 1 and
  the year step is shown.
\<close>

theorem invalid_option_counterexample:
  "fst (on_dist (fst (on_city (fst (on_cat Map.empty 7 ''car'')) 7 ''tehran'')) 7 ''__ALL__'') =
     [7 \<mapsto> sample_session]
   \<and> (\<exists>cfg opts. map_of CATEGORY_FLOWS ''car'' = Some cfg \<and>
       map_of (options cfg) ''mileage'' = Some opts \<and> ''bogus'' \<notin> set (choices opts))
   \<and> on_flt [7 \<mapsto> sample_session] 7 ''flt:mileage:bogus'' =
       ([7 \<mapsto> sample_session
            \<lparr>st_filters := Some [''mileage_min'' \<mapsto> StrV ''bogus'',
                                 ''mileage_max'' \<mapsto> StrV ''bogus''],
             st_flow_idx := Some 1\<rparr>],
        Prompt ''car'' ''year''
          [[''flt:year:2006-2011'', ''flt:year:2011-2016'', ''flt:year:2016-2021''],
           [''flt:year:2021-2025'']])"
proof (intro conjI)
  show "fst (on_dist (fst (on_city (fst (on_cat Map.empty 7 ''car'')) 7 ''tehran'')) 7 ''__ALL__'') =
     [7 \<mapsto> sample_session]"
    by (rule sample_session_reached)
  show "\<exists>cfg opts. map_of CATEGORY_FLOWS ''car'' = Some cfg \<and>
       map_of (options cfg) ''mileage'' = Some opts \<and> ''bogus'' \<notin> set (choices opts)"
    by (simp add: car_flow rng_def)
next
  have st: "store_filter_value ''car'' Map.empty ''mileage'' ''bogus'' =
              Inr [''mileage_min'' \<mapsto> StrV ''bogus'', ''mileage_max'' \<mapsto> StrV ''bogus'']"
    by (simp add: store_filter_value_def car_flow store_range_def)
  have d: "''flt:mileage:bogus'' = flt_data ''mileage'' ''bogus''"
    by (simp add: flt_data_def)
  have "on_flt [7 \<mapsto> sample_session] 7 (flt_data ''mileage'' ''bogus'') =
          ([7 \<mapsto> sample_session
            \<lparr>st_filters := Some [''mileage_min'' \<mapsto> StrV ''bogus'',
                                 ''mileage_max'' \<mapsto> StrV ''bogus''],
             st_flow_idx := Some 1\<rparr>], show_step ''car'' ''year'')"
    by (subst on_flt_answer [where st = sample_session and cat = "''car''" and f = Map.empty
          and fl = "[''mileage'', ''year'', ''price'']" and i = 0 and city = "''tehran''",
          OF _ _ car_flow _ _ _ _ _ st])
       (simp_all add: sample_session_def)
  then show "on_flt [7 \<mapsto> sample_session] 7 ''flt:mileage:bogus'' =
       ([7 \<mapsto> sample_session
            \<lparr>st_filters := Some [''mileage_min'' \<mapsto> StrV ''bogus'',
                                 ''mileage_max'' \<mapsto> StrV ''bogus''],
             st_flow_idx := Some 1\<rparr>],
        Prompt ''car'' ''year''
          [[''flt:year:2006-2011'', ''flt:year:2011-2016'', ''flt:year:2016-2021''],
           [''flt:year:2021-2025'']])"
    unfolding d show_year .
qed

text \<open>
  Claim C2, amended. The \<^verbatim>\<open>flt:\<close> branch compares the encoded value with nothing: for
  a session in the filter stage (category of the catalogue, its step list as flow, a
  city, an index inside the flow) and every encoded value, declared or not, answering the
  expected step raises nothing; \<^verbatim>\<open>store_filter_value\<close> writes the value under the
  fields of that step, and the session moves to the next step with that criteria, or,
  after the last step, is deleted and the playlist row is built with that criteria.
\<close>

theorem answer_any_value:
  assumes "bs uid = Some st"
    and "st_category st = Some cat"
    and "map_of CATEGORY_FLOWS cat = Some cfg"
    and "st_filters st = Some f"
    and "st_flow st = Some (steps cfg)"
    and "st_flow_idx st = Some i"
    and "st_city st = Some city"
    and "i < length (steps cfg)"
  shows "\<exists>f'. store_filter_value cat f (steps cfg ! i) v = Inr f' \<and>
           dom f' = dom f \<union> mapped_fields cfg (steps cfg ! i) \<and>
           (if i + 1 < length (steps cfg)
            then \<exists>kb. on_flt bs uid (flt_data (steps cfg ! i) v) =
                   (bs(uid \<mapsto> st\<lparr>st_filters := Some f', st_flow_idx := Some (i + 1)\<rparr>),
                    Prompt cat (steps cfg ! (i + 1)) kb)
            else on_flt bs uid (flt_data (steps cfg ! i) v) =
                   (bs(uid := None),
                    Finished (finished_row uid cfg cat city (st_district st) f')))"
proof -
  have mem: "(cat, cfg) \<in> set CATEGORY_FLOWS" using assms(3) by (rule catalogue_mem)
  have "steps cfg ! i \<in> set (steps cfg)" using assms(8) by simp
  with catalogue_steps mem have colon: "CHR '':'' \<notin> set (steps cfg ! i)" by blast
  show ?thesis
    using assms colon by (rule answer_accepted)
qed

theorem answer_any_value_witness:
  "\<exists>f'. store_filter_value ''car'' Map.empty ''mileage'' ''xyz'' = Inr f' \<and>
     (\<exists>kb. on_flt [7 \<mapsto> sample_session] 7 ''flt:mileage:xyz'' =
        ([7 \<mapsto> sample_session\<lparr>st_filters := Some f', st_flow_idx := Some 1\<rparr>],
         Prompt ''car'' ''year'' kb))"
proof -
  from car_steps obtain cfg where cfg: "map_of CATEGORY_FLOWS ''car'' = Some cfg"
    and steps: "steps cfg = [''mileage'', ''year'', ''price'']" by blast
  have h1: "[7 \<mapsto> sample_session] 7 = Some sample_session" by simp
  have h5: "st_flow sample_session = Some (steps cfg)"
    by (simp add: sample_session_fields steps)
  have h8: "0 < length (steps cfg)" by (simp add: steps)
  note t = answer_any_value [where bs = "[7 \<mapsto> sample_session]" and v = "''xyz''",
      OF h1 sample_session_fields(1) cfg sample_session_fields(2) h5
         sample_session_fields(4,5) h8]
  from t have "\<exists>f'. store_filter_value ''car'' Map.empty (steps cfg ! 0) ''xyz'' = Inr f' \<and>
     (if 0 + 1 < length (steps cfg)
      then \<exists>kb. on_flt [7 \<mapsto> sample_session] 7 (flt_data (steps cfg ! 0) ''xyz'') =
             ([7 \<mapsto> sample_session](7 \<mapsto> sample_session\<lparr>st_filters := Some f', st_flow_idx := Some (0 + 1)\<rparr>),
              Prompt ''car'' (steps cfg ! (0 + 1)) kb)
      else on_flt [7 \<mapsto> sample_session] 7 (flt_data (steps cfg ! 0) ''xyz'') =
             ([7 \<mapsto> sample_session](7 := None),
              Finished (finished_row 7 cfg ''car'' ''tehran'' (st_district sample_session) f')))"
    by - (elim exE conjE, intro exI conjI, assumption+)
  then show ?thesis
    by (simp add: steps flt_data_def)
qed

section \<open>An answer to a step that is not the expected one\<close>

text \<open>
  Claim C3 as stated fails: the session expects the mileage step (index 0), the answer
  names the price step, and it is taken: the price fields are written and the index
  moves on to 1.
\<close>

theorem step_out_of_order_counterexample:
  "fst (on_dist (fst (on_city (fst (on_cat Map.empty 7 ''car'')) 7 ''tehran'')) 7 ''__ALL__'') =
     [7 \<mapsto> sample_session]
   \<and> st_flow sample_session = Some [''mileage'', ''year'', ''price'']
   \<and> st_flow_idx sample_session = Some 0
   \<and> on_flt [7 \<mapsto> sample_session] 7 ''flt:price:0-300000000'' =
       ([7 \<mapsto> sample_session
            \<lparr>st_filters := Some [''price_min'' \<mapsto> IntV 0, ''price_max'' \<mapsto> IntV 300000000],
             st_flow_idx := Some 1\<rparr>],
        Prompt ''car'' ''year''
          [[''flt:year:2006-2011'', ''flt:year:2011-2016'', ''flt:year:2016-2021''],
           [''flt:year:2021-2025'']])"
proof (intro conjI)
  show "fst (on_dist (fst (on_city (fst (on_cat Map.empty 7 ''car'')) 7 ''tehran'')) 7 ''__ALL__'') =
     [7 \<mapsto> sample_session]"
    by (rule sample_session_reached)
  show "st_flow sample_session = Some [''mileage'', ''year'', ''price'']"
    by (simp add: sample_session_def)
  show "st_flow_idx sample_session = Some 0"
    by (simp add: sample_session_def)
  have st: "store_filter_value ''car'' Map.empty ''price'' ''0-300000000'' =
              Inr [''price_min'' \<mapsto> IntV 0, ''price_max'' \<mapsto> IntV 300000000]"
    by (simp add: store_filter_value_def car_flow store_range_def py_int_eval)
  have d: "''flt:price:0-300000000'' = flt_data ''price'' ''0-300000000''"
    by (simp add: flt_data_def)
  have "on_flt [7 \<mapsto> sample_session] 7 (flt_data ''price'' ''0-300000000'') =
          ([7 \<mapsto> sample_session
            \<lparr>st_filters := Some [''price_min'' \<mapsto> IntV 0, ''price_max'' \<mapsto> IntV 300000000],
             st_flow_idx := Some 1\<rparr>], show_step ''car'' ''year'')"
    by (subst on_flt_answer [where st = sample_session and cat = "''car''" and f = Map.empty
          and fl = "[''mileage'', ''year'', ''price'']" and i = 0 and city = "''tehran''",
          OF _ _ car_flow _ _ _ _ _ st])
       (simp_all add: sample_session_def)
  then show "on_flt [7 \<mapsto> sample_session] 7 ''flt:price:0-300000000'' =
       ([7 \<mapsto> sample_session
            \<lparr>st_filters := Some [''price_min'' \<mapsto> IntV 0, ''price_max'' \<mapsto> IntV 300000000],
             st_flow_idx := Some 1\<rparr>],
        Prompt ''car'' ''year''
          [[''flt:year:2006-2011'', ''flt:year:2011-2016'', ''flt:year:2016-2021''],
           [''flt:year:2021-2025'']])"
    unfolding d show_year .
qed

text \<open>
  Claim C3, amended. The \<^verbatim>\<open>flt:\<close> branch does not compare the step identifier of the
  answer with the step at the session's index: for a session in the filter stage and
  every step identifier (without a colon) and value, the value is written under the
  fields of the step that the answer names, and the index moves on by one (after the
  last index the session is deleted and the playlist row is built); nothing is raised.
\<close>

theorem answer_any_step:
  assumes "bs uid = Some st"
    and "st_category st = Some cat"
    and "map_of CATEGORY_FLOWS cat = Some cfg"
    and "st_filters st = Some f"
    and "st_flow st = Some (steps cfg)"
    and "st_flow_idx st = Some i"
    and "st_city st = Some city"
    and "i < length (steps cfg)"
    and "CHR '':'' \<notin> set step"
  shows "\<exists>f'. store_filter_value cat f step v = Inr f' \<and>
           dom f' = dom f \<union> mapped_fields cfg step \<and>
           (if i + 1 < length (steps cfg)
            then \<exists>kb. on_flt bs uid (flt_data step v) =
                   (bs(uid \<mapsto> st\<lparr>st_filters := Some f', st_flow_idx := Some (i + 1)\<rparr>),
                    Prompt cat (steps cfg ! (i + 1)) kb)
            else on_flt bs uid (flt_data step v) =
                   (bs(uid := None),
                    Finished (finished_row uid cfg cat city (st_district st) f')))"
  using assms by (rule answer_accepted)

theorem answer_any_step_witness:
  "\<exists>f'. store_filter_value ''car'' Map.empty ''price'' ''0-300000000'' = Inr f' \<and>
     (\<exists>kb. on_flt [7 \<mapsto> sample_session] 7 ''flt:price:0-300000000'' =
        ([7 \<mapsto> sample_session\<lparr>st_filters := Some f', st_flow_idx := Some 1\<rparr>],
         Prompt ''car'' ''year'' kb))"
proof -
  from car_steps obtain cfg where cfg: "map_of CATEGORY_FLOWS ''car'' = Some cfg"
    and steps: "steps cfg = [''mileage'', ''year'', ''price'']" by blast
  have h1: "[7 \<mapsto> sample_session] 7 = Some sample_session" by simp
  have h5: "st_flow sample_session = Some (steps cfg)"
    by (simp add: sample_session_fields steps)
  have h8: "0 < length (steps cfg)" by (simp add: steps)
  have h9: "CHR '':'' \<notin> set ''price''" by simp
  note t = answer_any_step [where bs = "[7 \<mapsto> sample_session]" and v = "''0-300000000''",
      OF h1 sample_session_fields(1) cfg sample_session_fields(2) h5
         sample_session_fields(4,5) h8 h9]
  from t have "\<exists>f'. store_filter_value ''car'' Map.empty ''price'' ''0-300000000'' = Inr f' \<and>
     (if 0 + 1 < length (steps cfg)
      then \<exists>kb. on_flt [7 \<mapsto> sample_session] 7 (flt_data ''price'' ''0-300000000'') =
             ([7 \<mapsto> sample_session](7 \<mapsto> sample_session\<lparr>st_filters := Some f', st_flow_idx := Some (0 + 1)\<rparr>),
              Prompt ''car'' (steps cfg ! (0 + 1)) kb)
      else on_flt [7 \<mapsto> sample_session] 7 (flt_data ''price'' ''0-300000000'') =
             ([7 \<mapsto> sample_session](7 := None),
              Finished (finished_row 7 cfg ''car'' ''tehran'' (st_district sample_session) f')))"
    by - (elim exE conjE, intro exI conjI, assumption+)
  then show ?thesis
    by (simp add: steps flt_data_def)
qed

section \<open>Walking a whole flow\<close>

text \<open>
  Claim C6. For every category of the catalogue, a session started by choosing the
  category, a city and a district, then answered once for every step of the category in
  order, whatever the values (so also with declared option values), shows the
  next step after every answer but the last and ends, with the session deleted, in a
  playlist row whose criteria has as keys exactly the two mapped names of every range
  step and the step name of every enum step.
\<close>

theorem flow_finishes:
  assumes "map_of CATEGORY_FLOWS cat = Some cfg"
    and "length vs = length (steps cfg)"
  shows "\<exists>outs row.
     answer_all (fst (on_dist (fst (on_city (fst (on_cat bs uid cat)) uid city)) uid dist)) uid
         (map2 flt_data (steps cfg) vs) =
       (bs(uid := None), outs @ [Finished row]) \<and>
     (\<forall>out\<in>set outs. \<exists>s kb. out = Prompt cat s kb) \<and>
     dom (pl_filters row) = (\<Union>s\<in>set (steps cfg). step_fields cfg s) \<and>
     pl_category row = cat \<and> pl_city row = city \<and> user_id row = uid"
proof -
  let ?st = "started cfg cat city dist"
  let ?bs = "bs(uid \<mapsto> ?st)"
  have mem: "(cat, cfg) \<in> set CATEGORY_FLOWS" using assms(1) by (rule catalogue_mem)
  with catalogue_nonempty have ne: "0 < length (steps cfg)" by fastforce
  have len: "length vs = length (steps cfg) - 0" using assms(2) by simp
  have "\<exists>outs ffin.
        answer_all ?bs uid (map2 flt_data (drop 0 (steps cfg)) vs) =
          (?bs(uid := None),
           outs @ [Finished (finished_row uid cfg cat city (st_district ?st) ffin)]) \<and>
        (\<forall>out\<in>set outs. \<exists>s kb. out = Prompt cat s kb) \<and>
        dom ffin = dom (Map.empty :: filters) \<union> (\<Union>s\<in>set (drop 0 (steps cfg)). mapped_fields cfg s)"
    by (rule walk [OF assms(1), where bs = ?bs and uid = uid and st = ?st and city = city,
          OF _ _ _ _ _ _ ne len])
       (simp_all add: started_def)
  then obtain outs ffin where
    a: "answer_all ?bs uid (map2 flt_data (steps cfg) vs) =
          (bs(uid := None),
           outs @ [Finished (finished_row uid cfg cat city (st_district ?st) ffin)])" and
    b: "\<forall>out\<in>set outs. \<exists>s kb. out = Prompt cat s kb" and
    c: "dom ffin = (\<Union>s\<in>set (steps cfg). mapped_fields cfg s)"
    by auto
  have fields: "(\<Union>s\<in>set (steps cfg). mapped_fields cfg s) =
                (\<Union>s\<in>set (steps cfg). step_fields cfg s)"
    using catalogue_fields mem by fastforce
  let ?row = "finished_row uid cfg cat city (st_district ?st) ffin"
  have 1: "answer_all (fst (on_dist (fst (on_city (fst (on_cat bs uid cat)) uid city)) uid dist))
              uid (map2 flt_data (steps cfg) vs) = (bs(uid := None), outs @ [Finished ?row])"
    unfolding flow_started [OF assms(1)] by (rule a)
  have 2: "dom (pl_filters ?row) = (\<Union>s\<in>set (steps cfg). step_fields cfg s)"
    using c fields by (simp add: finished_row_def)
  have 3: "pl_category ?row = cat \<and> pl_city ?row = city \<and> user_id ?row = uid"
    by (simp add: finished_row_def)
  from 1 b 2 3 show ?thesis by blast
qed

theorem flow_finishes_witness:
  "\<exists>outs row.
     answer_all
         (fst (on_dist (fst (on_city (fst (on_cat Map.empty 7 ''entertainment'')) 7 ''tehran''))
                 7 ''__ALL__''))
         7 [''flt:sub:book'', ''flt:price:0-2000000''] =
       (Map.empty, outs @ [Finished row]) \<and>
     dom (pl_filters row) = {''sub'', ''price_min'', ''price_max''} \<and>
     pl_category row = ''entertainment''"
proof -
  from entertainment_fields obtain cfg where
    cfg: "map_of CATEGORY_FLOWS ''entertainment'' = Some cfg" and
    steps: "steps cfg = [''sub'', ''price'']" and
    fields: "(\<Union>s\<in>set (steps cfg). step_fields cfg s) = {''sub'', ''price_min'', ''price_max''}"
    by blast
  have len: "length [''book'', ''0-2000000''] = length (steps cfg)"
    by (simp add: steps)
  have data: "map2 flt_data (steps cfg) [''book'', ''0-2000000''] =
                [''flt:sub:book'', ''flt:price:0-2000000'']"
    by (simp add: steps flt_data_def)
  have e: "(Map.empty :: builder)(7 := None) = Map.empty"
    by simp
  note t = flow_finishes [OF cfg len, of Map.empty 7 "''tehran''" "''__ALL__''"]
  from t show ?thesis
    unfolding data fields e
    by - (elim exE conjE, intro exI conjI, assumption+)
qed

end
